theory Spec2Isabelle
  imports Main
begin

section \<open>Python strings\<close>

text \<open>
  The scraper (\<^verbatim>\<open>src/main.py\<close>) works on Python \<^verbatim>\<open>str\<close> values. They are modelled as
  HOL strings, one \<^typ>\<open>char\<close> per code point. The character classes and the case
  mappings below are Python's on ASCII text (code points below 128); a character from
  128 on is taken as neither whitespace, nor a digit, nor a letter.
\<close>

definition is_space :: "char \<Rightarrow> bool" where
  \<comment> \<open>\<^verbatim>\<open>str.isspace\<close> and the class \<^verbatim>\<open>\s\<close>: TAB, LF, VT, FF, CR, FS, GS, RS, US, space.\<close>
  "is_space c = (let n = (of_char c :: nat) in (9 \<le> n \<and> n \<le> 13) \<or> (28 \<le> n \<and> n \<le> 32))"

definition is_digit :: "char \<Rightarrow> bool" where
  "is_digit c = (let n = (of_char c :: nat) in 48 \<le> n \<and> n \<le> 57)"

definition is_upper_char :: "char \<Rightarrow> bool" where
  "is_upper_char c = (let n = (of_char c :: nat) in 65 \<le> n \<and> n \<le> 90)"

definition is_lower_char :: "char \<Rightarrow> bool" where
  "is_lower_char c = (let n = (of_char c :: nat) in 97 \<le> n \<and> n \<le> 122)"

definition is_word_char :: "char \<Rightarrow> bool" where
  \<comment> \<open>the class \<^verbatim>\<open>\w\<close>\<close>
  "is_word_char c = (is_digit c \<or> is_upper_char c \<or> is_lower_char c \<or> c = CHR ''_'')"

definition char_upper :: "char \<Rightarrow> char" where
  "char_upper c = (if is_lower_char c then char_of ((of_char c :: nat) - 32) else c)"

definition char_lower :: "char \<Rightarrow> char" where
  "char_lower c = (if is_upper_char c then char_of ((of_char c :: nat) + 32) else c)"

definition py_upper :: "string \<Rightarrow> string" where
  "py_upper s = map char_upper s"

definition py_lower :: "string \<Rightarrow> string" where
  "py_lower s = map char_lower s"

definition py_isupper :: "string \<Rightarrow> bool" where
  \<comment> \<open>\<^verbatim>\<open>str.isupper\<close>: some cased character, and no lowercase one\<close>
  "py_isupper s = (list_ex is_upper_char s \<and> \<not> list_ex is_lower_char s)"

definition py_strip :: "string \<Rightarrow> string" where
  "py_strip s = rev (dropWhile is_space (rev (dropWhile is_space s)))"

fun startswith :: "string \<Rightarrow> string \<Rightarrow> bool" where
  \<comment> \<open>\<^verbatim>\<open>s.startswith(p)\<close>, written \<open>startswith p s\<close>\<close>
  "startswith [] s = True"
| "startswith (p # ps) [] = False"
| "startswith (p # ps) (c # cs) = (p = c \<and> startswith ps cs)"

fun contains :: "string \<Rightarrow> string \<Rightarrow> bool" where
  \<comment> \<open>\<^verbatim>\<open>sub in s\<close>, written \<open>contains sub s\<close>\<close>
  "contains sub [] = (sub = [])"
| "contains sub (c # cs) = (startswith sub (c # cs) \<or> contains sub cs)"

fun split_on :: "char \<Rightarrow> string \<Rightarrow> string list" where
  \<comment> \<open>\<^verbatim>\<open>s.split(sep)\<close> for a one-character separator: empty fields are kept\<close>
  "split_on sep [] = [[]]"
| "split_on sep (c # cs) =
     (if c = sep then [] # split_on sep cs
      else (case split_on sep cs of
              [] \<Rightarrow> [[c]]
            | w # ws \<Rightarrow> (c # w) # ws))"

fun split_ws :: "string \<Rightarrow> string \<Rightarrow> string list" where
  \<comment> \<open>the loop of \<^verbatim>\<open>s.split()\<close>; the first argument is the word being read\<close>
  "split_ws cur [] = (if cur = [] then [] else [cur])"
| "split_ws cur (c # cs) =
     (if is_space c then (if cur = [] then split_ws [] cs else cur # split_ws [] cs)
      else split_ws (cur @ [c]) cs)"

definition py_split :: "string \<Rightarrow> string list" where
  \<comment> \<open>\<^verbatim>\<open>s.split()\<close>: fields between runs of whitespace, none of them empty\<close>
  "py_split s = split_ws [] s"

section \<open>Search queries\<close>

text \<open>
  A location is a JSON object read into a \<^verbatim>\<open>dict\<close>; \<^verbatim>\<open>location.get(k, '')\<close> reads a
  missing key as the empty string.
\<close>

type_synonym location = "string \<rightharpoonup> string"

definition get_or_empty :: "location \<Rightarrow> string \<Rightarrow> string" where
  "get_or_empty location k = (case location k of None \<Rightarrow> [] | Some v \<Rightarrow> v)"

definition construct_search_query :: "location \<Rightarrow> string" where
  "construct_search_query location =
     (let locality = py_upper (get_or_empty location ''locality'');
          state = py_upper (get_or_empty location ''state'');
          postcode = get_or_empty location ''postcode''
      in py_strip (locality @ '' '' @ state @ '' '' @ postcode))"

definition parse_search_location :: "string \<Rightarrow> string \<times> string \<times> string" where
  "parse_search_location search_location =
     (let parts = py_split (py_upper search_location)
      in if length parts \<ge> 3 then (parts ! 0, parts ! 1, parts ! 2) else ([], [], []))"

definition mk_location :: "string \<Rightarrow> string \<Rightarrow> string \<Rightarrow> location" where
  \<comment> \<open>the object \<^verbatim>\<open>{"locality": l, "state": s, "postcode": p}\<close>\<close>
  "mk_location l s p = [''locality'' \<mapsto> l, ''state'' \<mapsto> s, ''postcode'' \<mapsto> p]"

definition is_token :: "string \<Rightarrow> bool" where
  \<comment> \<open>a non-empty string without whitespace\<close>
  "is_token w = (w \<noteq> [] \<and> \<not> list_ex is_space w)"


section \<open>Regular expressions\<close>

text \<open>
  The extractors use Python's \<^verbatim>\<open>re\<close> module. Its backtracking matcher is modelled for
  the constructs the patterns of \<^verbatim>\<open>src/main.py\<close> use: character classes, the assertion
  \<^verbatim>\<open>\b\<close>, concatenation, alternation and greedy repetition. A cursor is the character
  before the current position (if any) and the text from the position on. The matcher
  returns the cursors a pattern can stop at, in the order in which backtracking tries
  them, so the head of the list is the match that Python reports. A repetition goes into
  another round only after a round that consumed a character; no pattern of the source
  repeats a part that can match the empty string, and none can match the empty string as
  a whole, so the branch of the scan for an empty match is never taken by them.
\<close>

datatype rx =
    Eps
  | Cls "char \<Rightarrow> bool"
  | Bnd
  | Seq rx rx
  | Alt rx rx
  | Star rx

type_synonym cursor = "char option \<times> string"

definition at_boundary :: "cursor \<Rightarrow> bool" where
  \<comment> \<open>\<^verbatim>\<open>\b\<close>: exactly one of the two neighbouring characters is a word character\<close>
  "at_boundary cur =
     (let word_before = (case fst cur of None \<Rightarrow> False | Some c \<Rightarrow> is_word_char c);
          word_next = (case snd cur of [] \<Rightarrow> False | c # _ \<Rightarrow> is_word_char c)
      in word_before \<noteq> word_next)"

function rmatch :: "rx \<Rightarrow> cursor \<Rightarrow> cursor list" where
  "rmatch Eps cur = [cur]"
| "rmatch (Cls P) cur =
     (case snd cur of [] \<Rightarrow> [] | c # cs \<Rightarrow> if P c then [(Some c, cs)] else [])"
| "rmatch Bnd cur = (if at_boundary cur then [cur] else [])"
| "rmatch (Seq a b) cur = concat (map (rmatch b) (rmatch a cur))"
| "rmatch (Alt a b) cur = rmatch a cur @ rmatch b cur"
| "rmatch (Star r) cur =
     concat (map (rmatch (Star r))
               (filter (\<lambda>cur'. length (snd cur') < length (snd cur)) (rmatch r cur)))
     @ [cur]"
  by pat_completeness auto
termination
  by (relation "inv_image (less_than <*lex*> less_than) (\<lambda>(r, cur). (size r, length (snd cur)))")
     auto

definition matched_text :: "cursor \<Rightarrow> cursor \<Rightarrow> string" where
  \<comment> \<open>the text between a cursor and a later one\<close>
  "matched_text cur cur' = take (length (snd cur) - length (snd cur')) (snd cur)"

definition advance :: "cursor \<Rightarrow> cursor option" where
  "advance cur = (case snd cur of [] \<Rightarrow> None | c # cs \<Rightarrow> Some (Some c, cs))"

function scan_all :: "rx \<Rightarrow> cursor \<Rightarrow> string list" where
  \<comment> \<open>the scan of \<^verbatim>\<open>re.findall\<close>: leftmost matches that do not overlap\<close>
  "scan_all r cur =
     (case rmatch r cur of
        cur' # _ \<Rightarrow>
          if length (snd cur') < length (snd cur)
          then matched_text cur cur' # scan_all r cur'
          else [] # (case advance cur of None \<Rightarrow> [] | Some nxt \<Rightarrow> scan_all r nxt)
      | [] \<Rightarrow> (case advance cur of None \<Rightarrow> [] | Some nxt \<Rightarrow> scan_all r nxt))"
  by pat_completeness auto
termination
  by (relation "measure (\<lambda>(r, cur). length (snd cur))")
     (auto simp: advance_def split: list.splits)

function scan_first :: "rx \<Rightarrow> cursor \<Rightarrow> string option" where
  \<comment> \<open>the scan of \<^verbatim>\<open>re.search\<close>: the leftmost match\<close>
  "scan_first r cur =
     (case rmatch r cur of
        cur' # _ \<Rightarrow> Some (matched_text cur cur')
      | [] \<Rightarrow> (case advance cur of None \<Rightarrow> None | Some nxt \<Rightarrow> scan_first r nxt))"
  by pat_completeness auto
termination
  by (relation "measure (\<lambda>(r, cur). length (snd cur))")
     (auto simp: advance_def split: list.splits)

declare rmatch.simps(6) [simp del] scan_all.simps [simp del] scan_first.simps [simp del]

definition re_findall :: "rx \<Rightarrow> string \<Rightarrow> string list" where
  "re_findall r text = scan_all r (None, text)"

definition re_search :: "rx \<Rightarrow> string \<Rightarrow> string option" where
  "re_search r text = scan_first r (None, text)"

fun seqs :: "rx list \<Rightarrow> rx" where
  "seqs [] = Eps"
| "seqs [r] = r"
| "seqs (r # rs) = Seq r (seqs rs)"

fun alts :: "rx list \<Rightarrow> rx" where
  "alts [] = Eps"
| "alts [r] = r"
| "alts (r # rs) = Alt r (alts rs)"

definition lit :: "char \<Rightarrow> rx" where
  "lit c = Cls (\<lambda>x. x = c)"

definition lits :: "string \<Rightarrow> rx" where
  "lits s = seqs (map lit s)"

definition many1 :: "rx \<Rightarrow> rx" where
  \<comment> \<open>\<^verbatim>\<open>r+\<close>\<close>
  "many1 r = Seq r (Star r)"

definition opt :: "rx \<Rightarrow> rx" where
  \<comment> \<open>\<^verbatim>\<open>r?\<close>\<close>
  "opt r = Alt r Eps"

definition digit :: rx where
  \<comment> \<open>\<^verbatim>\<open>\d\<close>\<close>
  "digit = Cls is_digit"

definition digits :: "nat \<Rightarrow> rx list" where
  \<comment> \<open>\<^verbatim>\<open>\d{n}\<close>\<close>
  "digits n = replicate n digit"


section \<open>Field extraction from page text\<close>

subsection \<open>Telephone\<close>

definition telephone_patterns :: "rx list" where
  \<open>telephone_patterns =
     [ \<comment> \<open>\<^verbatim>\<open>\b\d{2} \d{4} \d{4}\b\<close>\<close>
       seqs ([Bnd] @ digits 2 @ [lit CHR '' ''] @ digits 4 @ [lit CHR '' ''] @ digits 4 @ [Bnd]),
       \<comment> \<open>\<^verbatim>\<open>\b\d{4} \d{3} \d{3}\b\<close>\<close>
       seqs ([Bnd] @ digits 4 @ [lit CHR '' ''] @ digits 3 @ [lit CHR '' ''] @ digits 3 @ [Bnd]),
       \<comment> \<open>\<^verbatim>\<open>\b\d{2}-\d{4}-\d{4}\b\<close>\<close>
       seqs ([Bnd] @ digits 2 @ [lit CHR ''-''] @ digits 4 @ [lit CHR ''-''] @ digits 4 @ [Bnd]),
       \<comment> \<open>\<^verbatim>\<open>\b\d{4}-\d{3}-\d{3}\b\<close>\<close>
       seqs ([Bnd] @ digits 4 @ [lit CHR ''-''] @ digits 3 @ [lit CHR ''-''] @ digits 3 @ [Bnd]),
       \<comment> \<open>\<^verbatim>\<open>\b\d{8}\b\<close>\<close>
       seqs ([Bnd] @ digits 8 @ [Bnd]),
       \<comment> \<open>\<^verbatim>\<open>\b\d{10}\b\<close>\<close>
       seqs ([Bnd] @ digits 10 @ [Bnd]) ]\<close>

definition phone_shaped :: "rx \<Rightarrow> bool" where
  \<comment> \<open>a pattern that begins with \<^verbatim>\<open>\b\d\<close> and ends with \<^verbatim>\<open>\d\b\<close>\<close>
  "phone_shaped p =
     (\<exists>rs. rs \<noteq> [] \<and> p = seqs (Bnd # digit # rs) \<and> (\<exists>qs. Bnd # digit # rs = qs @ [digit, Bnd]))"

definition looks_like_date :: "string \<Rightarrow> bool" where
  "looks_like_date m = (startswith ''2025'' m \<or> startswith ''2024'' m)"

fun first_phone :: "string list \<Rightarrow> string option" where
  \<comment> \<open>the loop over the matches of one pattern\<close>
  "first_phone [] = None"
| "first_phone (m # ms) = (if \<not> looks_like_date m then Some (py_strip m) else first_phone ms)"

fun try_patterns :: "rx list \<Rightarrow> string \<Rightarrow> string" where
  \<comment> \<open>the loop over the patterns\<close>
  "try_patterns [] text = []"
| "try_patterns (pattern # patterns) text =
     (let matches = re_findall pattern text
      in if matches \<noteq> []
         then (case first_phone matches of
                 Some m \<Rightarrow> m
               | None \<Rightarrow> try_patterns patterns text)
         else try_patterns patterns text)"

definition extract_telephone :: "string \<Rightarrow> string" where
  "extract_telephone text = try_patterns telephone_patterns text"

subsection \<open>Email, website, address\<close>

definition email_local :: "char \<Rightarrow> bool" where
  \<comment> \<open>\<^verbatim>\<open>[A-Za-z0-9._%+-]\<close>\<close>
  "email_local c = (is_upper_char c \<or> is_lower_char c \<or> is_digit c \<or> c \<in> set ''._%+-'')"

definition email_domain :: "char \<Rightarrow> bool" where
  \<comment> \<open>\<^verbatim>\<open>[A-Za-z0-9.-]\<close>\<close>
  "email_domain c = (is_upper_char c \<or> is_lower_char c \<or> is_digit c \<or> c \<in> set ''.-'')"

definition email_tld :: "char \<Rightarrow> bool" where
  \<comment> \<open>\<^verbatim>\<open>[A-Z|a-z]\<close>: the bar is a member of the class\<close>
  "email_tld c = (is_upper_char c \<or> c = CHR ''|'' \<or> is_lower_char c)"

definition email_pattern :: rx where
  \<comment> \<open>\<^verbatim>\<open>\b[A-Za-z0-9._%+-]+@[A-Za-z0-9.-]+\.[A-Z|a-z]{2,}\b\<close>\<close>
  "email_pattern =
     seqs [Bnd, many1 (Cls email_local), lit CHR ''@'', many1 (Cls email_domain), lit CHR ''.'',
           Cls email_tld, Cls email_tld, Star (Cls email_tld), Bnd]"

definition extract_email :: "string \<Rightarrow> string" where
  "extract_email text =
     (case re_search email_pattern text of Some m \<Rightarrow> py_strip m | None \<Rightarrow> [])"

definition is_hex :: "char \<Rightarrow> bool" where
  \<comment> \<open>\<^verbatim>\<open>[\da-fA-F]\<close>\<close>
  "is_hex c = (is_digit c \<or> c \<in> set ''abcdef'' \<or> c \<in> set ''ABCDEF'')"

definition host_char :: "char \<Rightarrow> bool" where
  \<comment> \<open>\<^verbatim>\<open>[-\w.]\<close>\<close>
  "host_char c = (c = CHR ''-'' \<or> is_word_char c \<or> c = CHR ''.'')"

definition path_char :: "char \<Rightarrow> bool" where
  \<comment> \<open>\<^verbatim>\<open>[/\w\.-]\<close>\<close>
  "path_char c = (c = CHR ''/'' \<or> is_word_char c \<or> c = CHR ''.'' \<or> c = CHR ''-'')"

definition query_char :: "char \<Rightarrow> bool" where
  \<comment> \<open>\<^verbatim>\<open>[/\w\.-=&%]\<close>: the middle is the range from the full stop to the equals sign\<close>
  "query_char c =
     (c = CHR ''/'' \<or> is_word_char c \<or> (46 \<le> (of_char c :: nat) \<and> (of_char c :: nat) \<le> 61)
      \<or> c = CHR ''&'' \<or> c = CHR ''%'')"

definition website_pattern :: rx where
  \<comment> \<open>\<^verbatim>\<open>https?://(?:[-\w.]|(?:%[\da-fA-F]{2}))+[/\w\.-]*\??[/\w\.-=&%]*\<close>\<close>
  "website_pattern =
     seqs [lits ''http'', opt (lit CHR ''s''), lits ''://'',
           many1 (Alt (Cls host_char) (seqs [lit CHR ''%'', Cls is_hex, Cls is_hex])),
           Star (Cls path_char), opt (lit CHR ''?''), Star (Cls query_char)]"

fun first_external :: "string list \<Rightarrow> string" where
  "first_external [] = []"
| "first_external (m # ms) =
     (if \<not> contains ''myagedcare.gov.au'' m \<and> \<not> contains ''bot.sannysoft.com'' m
      then py_strip m else first_external ms)"

definition extract_website :: "string \<Rightarrow> string" where
  "extract_website text = first_external (re_findall website_pattern text)"

definition street_char :: "char \<Rightarrow> bool" where
  \<comment> \<open>\<^verbatim>\<open>[\sA-Za-z]\<close>\<close>
  "street_char c = (is_space c \<or> is_upper_char c \<or> is_lower_char c)"

definition suburb_char :: "char \<Rightarrow> bool" where
  \<comment> \<open>\<^verbatim>\<open>[A-Z\s]\<close>\<close>
  "suburb_char c = (is_upper_char c \<or> is_space c)"

definition state_abbreviation :: rx where
  \<comment> \<open>\<^verbatim>\<open>(?:ACT|NSW|NT|QLD|SA|TAS|VIC|WA)\<close>\<close>
  "state_abbreviation =
     alts [lits ''ACT'', lits ''NSW'', lits ''NT'', lits ''QLD'', lits ''SA'', lits ''TAS'',
           lits ''VIC'', lits ''WA'']"

definition address_pattern :: rx where
  \<comment> \<open>\<^verbatim>\<open>(\d+[\sA-Za-z]+,?\s+[A-Z\s]+\s+\d{4}\s+(?:ACT|NSW|NT|QLD|SA|TAS|VIC|WA))\<close>\<close>
  "address_pattern =
     seqs ([many1 digit, many1 (Cls street_char), opt (lit CHR '',''), many1 (Cls is_space),
            many1 (Cls suburb_char), many1 (Cls is_space)] @ digits 4 @
           [many1 (Cls is_space), state_abbreviation])"

definition address_pattern2 :: rx where
  \<comment> \<open>\<^verbatim>\<open>(\d+[\sA-Za-z]+\s+[A-Z\s]+\s+\d{4}\s+(?:ACT|NSW|NT|QLD|SA|TAS|VIC|WA))\<close>\<close>
  "address_pattern2 =
     seqs ([many1 digit, many1 (Cls street_char), many1 (Cls is_space),
            many1 (Cls suburb_char), many1 (Cls is_space)] @ digits 4 @
           [many1 (Cls is_space), state_abbreviation])"

definition extract_address :: "string \<Rightarrow> string" where
  "extract_address text =
     (case re_search address_pattern (py_upper text) of
        Some m \<Rightarrow> py_strip m
      | None \<Rightarrow>
         (case re_search address_pattern2 (py_upper text) of
            Some m \<Rightarrow> py_strip m
          | None \<Rightarrow> []))"

subsection \<open>Company name\<close>

definition menu_keywords :: "string list" where
  "menu_keywords = [''home'', ''find a provider'', ''search'', ''print'', ''share'']"

definition word_starts_upper :: "string \<Rightarrow> bool" where
  \<comment> \<open>\<^verbatim>\<open>word[0].isupper()\<close>, for a word that is not empty\<close>
  "word_starts_upper word = (case word of [] \<Rightarrow> False | c # _ \<Rightarrow> is_upper_char c)"

definition looks_like_name :: "string \<Rightarrow> bool" where
  "looks_like_name line =
     ((py_isupper line \<or> list_ex word_starts_upper (py_split line))
      \<and> \<not> list_ex (\<lambda>keyword. contains keyword (py_lower line)) menu_keywords)"

definition name_line :: "string \<Rightarrow> bool" where
  \<comment> \<open>the test the loop applies to a stripped line\<close>
  "name_line line = (length line > 3 \<and> length line < 100 \<and> looks_like_name line)"

fun first_name_line :: "string list \<Rightarrow> string" where
  "first_name_line [] = []"
| "first_name_line (l # ls) =
     (let line = py_strip l in if name_line line then line else first_name_line ls)"

definition extract_company_name_from_text :: "string \<Rightarrow> string" where
  "extract_company_name_from_text text = first_name_line (split_on CHR ''\<newline>'' text)"


section \<open>The browser as the scraper sees it\<close>

text \<open>
  The browser is outside the program. A call that can raise returns an \<open>attempt\<close>; what
  a page answers to a selector is part of the page value handed to the model.
\<close>

datatype 'a attempt = Raised | Returned 'a

datatype text_probe =
    Missing \<comment> \<open>no element matches: \<^verbatim>\<open>count()\<close> is 0\<close>
  | Fails string \<comment> \<open>the call raised, with this message\<close>
  | InnerText string

record detail_page =
  page_title :: string
  current_url :: string
  page_content :: string
  inner_text_of :: "string \<Rightarrow> text_probe" \<comment> \<open>\<^verbatim>\<open>page.locator(selector).inner_text()\<close>\<close>
  first_inner_text_of :: "string \<Rightarrow> text_probe" \<comment> \<open>\<^verbatim>\<open>page.locator(selector).first.inner_text()\<close>\<close>
  timeout_message :: string \<comment> \<open>the text of the error raised on waiting for a missing element\<close>

definition content_selectors :: "string list" where
  "content_selectors =
     [''main'', ''[role='main']'', ''.main-content'', ''article'', ''.content'', ''#content'',
      ''.provider-details'', ''[data-testid*='details']'', ''body'']"

fun first_long_text :: "detail_page \<Rightarrow> string list \<Rightarrow> string option" where
  "first_long_text pg [] = None"
| "first_long_text pg (selector # selectors) =
     (case inner_text_of pg selector of
        InnerText text \<Rightarrow>
          if text \<noteq> [] \<and> length (py_strip text) > 100 then Some (py_strip text)
          else first_long_text pg selectors
      | _ \<Rightarrow> first_long_text pg selectors)"

definition extract_all_text_from_page :: "detail_page \<Rightarrow> string" where
  "extract_all_text_from_page pg =
     (case first_long_text pg content_selectors of
        Some text \<Rightarrow> text
      | None \<Rightarrow>
         (case inner_text_of pg ''body'' of
            InnerText body_text \<Rightarrow> py_strip body_text
          | Fails msg \<Rightarrow> ''Error extracting text: '' @ msg
          | Missing \<Rightarrow> ''Error extracting text: '' @ timeout_message pg))"

definition name_selectors :: "string list" where
  "name_selectors =
     [''h1'', ''h1[data-testid*='name']'', ''.provider-name'', ''header h1'',
      ''[data-testid*='provider-name']'', ''h2:first-of-type'']"

definition first_line :: "string \<Rightarrow> string" where
  \<comment> \<open>\<^verbatim>\<open>s.split('\n')[0]\<close>\<close>
  "first_line s = (case split_on CHR ''\<newline>'' s of [] \<Rightarrow> [] | l # _ \<Rightarrow> l)"

fun first_heading :: "detail_page \<Rightarrow> string list \<Rightarrow> string" where
  "first_heading pg [] = []"
| "first_heading pg (selector # selectors) =
     (case first_inner_text_of pg selector of
        InnerText text \<Rightarrow>
          if text \<noteq> [] \<and> length (py_strip text) > 0
          then (let clean_text = first_line (py_strip text)
                in if length clean_text < 100 then clean_text
                   else first_heading pg selectors)
          else first_heading pg selectors
      | _ \<Rightarrow> first_heading pg selectors)"

definition extract_company_name_from_elements :: "detail_page \<Rightarrow> string" where
  "extract_company_name_from_elements pg = first_heading pg name_selectors"

section \<open>The scraper and its telephone set\<close>

record ProviderData =
  company_name :: string
  address :: string
  suburb :: string
  state :: string
  postcode :: string
  telephone :: string
  email :: string
  website :: string
  search_type :: string
  search_location :: string
  result_url :: string

definition asdict :: "ProviderData \<Rightarrow> (string \<rightharpoonup> string)" where
  "asdict pd =
     [''company_name'' \<mapsto> company_name pd, ''address'' \<mapsto> address pd,
      ''suburb'' \<mapsto> suburb pd, ''state'' \<mapsto> state pd, ''postcode'' \<mapsto> postcode pd,
      ''telephone'' \<mapsto> telephone pd, ''email'' \<mapsto> email pd, ''website'' \<mapsto> website pd,
      ''search_type'' \<mapsto> search_type pd, ''search_location'' \<mapsto> search_location pd,
      ''result_url'' \<mapsto> result_url pd]"

text \<open>
  The scraper object holds the batch of accepted records and the set of telephones seen;
  \<open>output_csv\<close> is the file \<^verbatim>\<open>output/output.csv\<close> as the rows it holds, \<open>None\<close> while the
  file does not exist.
\<close>

record scraper =
  results :: "(string \<rightharpoonup> string) list"
  existing_telephones :: "string set"
  output_csv :: "string list list option"

definition clean_telephone :: "string \<Rightarrow> string" where
  "clean_telephone tel =
     (if tel = [] then []
      else filter (\<lambda>c. \<not> (is_space c \<or> c = CHR ''-'' \<or> c = CHR ''('' \<or> c = CHR '')''))
             (py_strip tel))"

definition is_duplicate_telephone :: "scraper \<Rightarrow> string \<Rightarrow> bool" where
  "is_duplicate_telephone self tel =
     (if tel = [] then False else clean_telephone tel \<in> existing_telephones self)"

definition add_telephone_to_memory :: "scraper \<Rightarrow> string \<Rightarrow> scraper" where
  "add_telephone_to_memory self tel =
     (if tel \<noteq> []
      then (let clean_tel = clean_telephone tel
            in if clean_tel \<noteq> []
               then self\<lparr>existing_telephones := insert clean_tel (existing_telephones self)\<rparr>
               else self)
      else self)"

section \<open>The detail page\<close>

definition landing_copy :: string where
  "landing_copy = ''Find aged care providers to support your needs''"

definition is_search_url :: "string \<Rightarrow> bool" where
  "is_search_url u =
     (contains ''results'' u
      \<or> (contains ''/find-a-provider/search'' u \<and> \<not> contains ''/find-a-provider/search/'' u))"

definition is_broken_page :: "detail_page \<Rightarrow> bool" where
  "is_broken_page pg =
     (contains ''Sorry, we can't find'' (page_title pg) \<or> contains ''404'' (page_title pg)
      \<or> contains ''Page not found'' (page_content pg))"

definition no_meaningful_content :: "string \<Rightarrow> bool" where
  "no_meaningful_content raw_text =
     (length (py_strip raw_text) < 100 \<or> contains ''Sorry, we can't find'' raw_text)"

definition derive_company_name :: "detail_page \<Rightarrow> string \<Rightarrow> string" where
  \<comment> \<open>the heading of the page, and the scan of the text when there is none\<close>
  "derive_company_name pg raw_text =
     (let name = extract_company_name_from_elements pg
      in if name = [] then extract_company_name_from_text raw_text else name)"

definition scrape_detail_page ::
  "scraper \<Rightarrow> detail_page attempt \<Rightarrow> string \<Rightarrow> string \<Rightarrow> string \<Rightarrow> ProviderData option" where
  "scrape_detail_page self page url stype slocation =
     (case page of
        Raised \<Rightarrow> None
      | Returned pg \<Rightarrow>
          if is_search_url (current_url pg) then None
          else if is_broken_page pg then None
          else
            (let raw_text = extract_all_text_from_page pg
             in if no_meaningful_content raw_text then None
                else if contains landing_copy raw_text then None
                else
                  (let name = derive_company_name pg raw_text;
                       tel = extract_telephone raw_text
                   in if name = [] \<or> name = landing_copy then None
                      else if tel \<noteq> [] \<and> is_duplicate_telephone self tel then None
                      else
                        (case parse_search_location slocation of
                           (sub, st, pc) \<Rightarrow>
                             Some \<lparr>company_name = name,
                                   address = extract_address raw_text,
                                   suburb = sub, state = st, postcode = pc,
                                   telephone = tel,
                                   email = extract_email raw_text,
                                   website = extract_website raw_text,
                                   search_type = stype,
                                   search_location = slocation,
                                   result_url = url\<rparr>))))"

definition passes_validity_gates :: "detail_page \<Rightarrow> bool" where
  \<comment> \<open>none of the checks before the telephone check rejects the page\<close>
  "passes_validity_gates pg =
     (let raw_text = extract_all_text_from_page pg;
          name = derive_company_name pg raw_text
      in \<not> is_search_url (current_url pg) \<and> \<not> is_broken_page pg
         \<and> \<not> no_meaningful_content raw_text \<and> \<not> contains landing_copy raw_text
         \<and> name \<noteq> [] \<and> name \<noteq> landing_copy)"

definition process_link ::
  "scraper \<Rightarrow> detail_page attempt \<Rightarrow> string \<Rightarrow> string \<Rightarrow> string \<Rightarrow> scraper" where
  \<comment> \<open>one round of the loop over the detail links\<close>
  "process_link self page link stype squery =
     (case scrape_detail_page self page link stype squery of
        Some provider_data \<Rightarrow>
          (let self' = add_telephone_to_memory self (telephone provider_data)
           in self'\<lparr>results := results self' @ [asdict provider_data]\<rparr>)
      | None \<Rightarrow> self)"


section \<open>Harvesting the links of a results page\<close>

text \<open>
  A card answers a link selector with the \<^verbatim>\<open>href\<close> attributes of the elements it matches
  (or the count raises); an attribute is read as \<open>None\<close> when the element has none, and
  reading it can raise.
\<close>

type_synonym href = "string option attempt"

type_synonym card = "string \<Rightarrow> href list attempt"

record results_page =
  cards_of :: "string \<Rightarrow> card list attempt" \<comment> \<open>\<^verbatim>\<open>page.locator(card_selector)\<close>\<close>
  provider_anchors :: "href list attempt" \<comment> \<open>\<^verbatim>\<open>page.locator("a[href*='/find-a-provider/']")\<close>\<close>

definition card_selectors :: "string list" where
  "card_selectors =
     [''div.flex.w-full.content-center.bg-neutral-00'', ''article'', ''li[role='article']'',
      ''[data-testid*='result']'', ''[class*='card']'',
      ''div[class*='flex'][class*='w-full'][class*='bg-neutral-00']'']"

definition link_selectors :: "string list" where
  "link_selectors =
     [''a[href*='/find-a-provider/']'', ''a[href*='search/']'', ''a:has-text('Show details')'',
      ''h3 a'', ''a'']"

definition full_url :: "string \<Rightarrow> string" where
  "full_url h = (if startswith ''http'' h then h else ''https://www.myagedcare.gov.au'' @ h)"

definition detail_shape :: "string \<Rightarrow> bool" where
  "detail_shape u = (contains ''/find-a-provider/'' u \<and> \<not> contains ''results'' u)"

fun scan_hrefs :: "string list \<Rightarrow> href list \<Rightarrow> string list" where
  \<comment> \<open>the loop over the elements of one link selector: it stops at the first link it adds\<close>
  "scan_hrefs links [] = links"
| "scan_hrefs links (Raised # es) = scan_hrefs links es"
| "scan_hrefs links (Returned None # es) = scan_hrefs links es"
| "scan_hrefs links (Returned (Some h) # es) =
     (if h \<noteq> [] \<and> detail_shape (full_url h) \<and> full_url h \<notin> set links
      then links @ [full_url h]
      else scan_hrefs links es)"

fun scan_link_selectors :: "card \<Rightarrow> nat \<Rightarrow> string list \<Rightarrow> string list \<Rightarrow> string list" where
  \<comment> \<open>the loop over the link selectors, for card number \<open>i\<close>\<close>
  "scan_link_selectors c i links [] = links"
| "scan_link_selectors c i links (link_selector # rest) =
     (case c link_selector of
        Raised \<Rightarrow> scan_link_selectors c i links rest
      | Returned es \<Rightarrow>
          (let links' = scan_hrefs links es
           in if links' \<noteq> [] \<and> length links' > i then links'
              else scan_link_selectors c i links' rest))"

fun scan_cards :: "card list \<Rightarrow> nat \<Rightarrow> string list \<Rightarrow> string list" where
  \<comment> \<open>the loop over the cards of one card selector, from card number \<open>i\<close> on\<close>
  "scan_cards [] i links = links"
| "scan_cards (c # cs) i links =
     scan_cards cs (Suc i) (scan_link_selectors c i links link_selectors)"

fun scan_card_selectors :: "results_page \<Rightarrow> string list \<Rightarrow> string list \<Rightarrow> string list" where
  \<comment> \<open>the loop over the card selectors\<close>
  "scan_card_selectors pg [] links = links"
| "scan_card_selectors pg (card_selector # rest) links =
     (case cards_of pg card_selector of
        Raised \<Rightarrow> scan_card_selectors pg rest links
      | Returned cs \<Rightarrow> scan_card_selectors pg rest (scan_cards cs 0 links))"

fun scan_anchors :: "string list \<Rightarrow> href list \<Rightarrow> string list" where
  \<comment> \<open>the loop of the broader search: it takes every link that passes\<close>
  "scan_anchors links [] = links"
| "scan_anchors links (Raised # es) = scan_anchors links es"
| "scan_anchors links (Returned None # es) = scan_anchors links es"
| "scan_anchors links (Returned (Some h) # es) =
     (if h \<noteq> [] \<and> detail_shape (full_url h) \<and> full_url h \<notin> set links
      then scan_anchors (links @ [full_url h]) es
      else scan_anchors links es)"

definition collect_links :: "results_page \<Rightarrow> string list attempt" where
  \<comment> \<open>the list \<^verbatim>\<open>links\<close> before the last filter and the cap; the count of the broader
      search is outside every \<^verbatim>\<open>try\<close>\<close>
  "collect_links pg =
     (let links = scan_card_selectors pg card_selectors []
      in if links = []
         then (case provider_anchors pg of
                 Raised \<Rightarrow> Raised
               | Returned es \<Rightarrow> Returned (scan_anchors links es))
         else Returned links)"

definition LINK_PER_SEARCH :: "int option" where
  "LINK_PER_SEARCH = Some 2"

definition apply_cap :: "int option \<Rightarrow> string list \<Rightarrow> string list" where
  "apply_cap cap links =
     (case cap of
        None \<Rightarrow> links
      | Some c \<Rightarrow> if c \<noteq> 0 \<and> c > 0 then take (nat c) links else links)"

definition extract_all_links_from_cards :: "int option \<Rightarrow> results_page \<Rightarrow> string list attempt" where
  \<comment> \<open>the first argument is the setting \<^verbatim>\<open>LINK_PER_SEARCH\<close>\<close>
  "extract_all_links_from_cards cap pg =
     (case collect_links pg of
        Raised \<Rightarrow> Raised
      | Returned links \<Rightarrow>
          Returned (apply_cap cap (filter (\<lambda>link. \<not> contains ''results'' link) links)))"

subsection \<open>Notions for the statements about the harvest\<close>




definition hrefs_of :: "href list \<Rightarrow> string set" where
  \<comment> \<open>the attributes read without error from a list of elements, the empty ones left out\<close>
  "hrefs_of es = {h \<in> (\<Union>e \<in> set es. case e of Returned (Some h) \<Rightarrow> {h} | _ \<Rightarrow> {}). h \<noteq> []}"

definition card_hrefs :: "card \<Rightarrow> string set" where
  \<comment> \<open>the attributes a card offers to the link selectors\<close>
  "card_hrefs c =
     (\<Union>link_selector \<in> set link_selectors.
        case c link_selector of Raised \<Rightarrow> {} | Returned es \<Rightarrow> hrefs_of es)"

definition page_hrefs :: "results_page \<Rightarrow> string set" where
  \<comment> \<open>the attributes of the page that the harvester can read\<close>
  "page_hrefs pg =
     (\<Union>card_selector \<in> set card_selectors.
        case cards_of pg card_selector of
          Raised \<Rightarrow> {}
        | Returned cs \<Rightarrow> (\<Union>c \<in> set cs. card_hrefs c))
     \<union> (case provider_anchors pg of Raised \<Rightarrow> {} | Returned es \<Rightarrow> hrefs_of es)"

definition links_ok :: "string set \<Rightarrow> string list \<Rightarrow> bool" where
  \<comment> \<open>the invariant of the loops: no link twice, and every link the absolute form of an
      attribute of \<open>H\<close> with the shape of a detail page\<close>
  "links_ok H links = (distinct links \<and> (\<forall>u \<in> set links. detail_shape u \<and> u \<in> full_url ` H))"


section \<open>Waiting for the results\<close>

text \<open>
  A view is the page at one moment: what a selector finds (the count and whether the
  element is visible, or the query raises), whether a click succeeds, and the address.
  The detector sees one view before its loop, one in each round of the loop and one after
  it; a timeline gives them by number. Beside its result the detector returns what it
  did: the pauses in milliseconds, the clicks, the no-results checks and the lines
  printed (without their leading pictogram).
\<close>

datatype probe = Query_raises | Found nat bool

record view =
  probe_of :: "string \<Rightarrow> probe"
  click_ok :: "string \<Rightarrow> bool"
  view_url :: string

datatype event =
    Sleep nat
  | Clicked string
  | No_results_check
  | Printed string
  | Printed_found nat \<comment> \<open>the line \<^verbatim>\<open>Found n result elements\<close>\<close>

definition popup_selectors :: "string list" where
  "popup_selectors =
     [''button:has-text('Got it')'', ''button:has-text('GOT IT')'', ''[aria-label*='Got it']'',
      ''.popover button:has-text('Got it')'', ''button >> text=Got it'']"

fun handle_popup_from :: "view \<Rightarrow> string list \<Rightarrow> bool \<times> event list" where
  "handle_popup_from v [] = (False, [])"
| "handle_popup_from v (selector # rest) =
     (case probe_of v selector of
        Found n visible \<Rightarrow>
          if n > 0 \<and> visible
          then (if click_ok v selector
                then (True, [Printed ''Found 'Got it' popup - closing it...'', Clicked selector,
                             Sleep 1500, Printed ''Popup closed successfully''])
                else (case handle_popup_from v rest of
                        (r, evs) \<Rightarrow> (r, Printed ''Found 'Got it' popup - closing it...'' # evs)))
          else handle_popup_from v rest
      | Query_raises \<Rightarrow> handle_popup_from v rest)"

definition handle_popup :: "view \<Rightarrow> bool \<times> event list" where
  "handle_popup v = handle_popup_from v popup_selectors"

definition no_results_indicators :: "string list" where
  "no_results_indicators =
     [''text=No providers found'', ''text=No results found'', ''text=Try adjusting your search'',
      ''text=We couldn't find any providers'', ''text=0 results'', ''[data-testid*='no-results']'',
      ''.no-results'', ''[class*='no-results']'']"

fun indicator_shown :: "view \<Rightarrow> string list \<Rightarrow> bool" where
  "indicator_shown v [] = False"
| "indicator_shown v (indicator # rest) =
     (case probe_of v indicator of
        Found n visible \<Rightarrow> if n > 0 \<and> visible then True else indicator_shown v rest
      | Query_raises \<Rightarrow> indicator_shown v rest)"

definition check_no_results :: "view \<Rightarrow> bool \<times> event list" where
  "check_no_results v =
     (if indicator_shown v no_results_indicators
      then (True, [No_results_check, Printed ''No results found for this search''])
      else if contains ''/find-a-provider/search'' (view_url v) \<and> \<not> contains ''results'' (view_url v)
      then (True, [No_results_check, Printed ''Redirected to search form page - no results''])
      else (False, [No_results_check]))"

definition result_selectors :: "string list" where
  "result_selectors =
     [''article'', ''li[role='article']'', ''[data-testid*='result']'', ''[class*='result']'',
      ''[class*='card']'', ''h2'']"

fun first_result :: "view \<Rightarrow> string list \<Rightarrow> nat option" where
  \<comment> \<open>the count of the first selector whose first element is visible\<close>
  "first_result v [] = None"
| "first_result v (selector # rest) =
     (case probe_of v selector of
        Found n visible \<Rightarrow>
          if n > 0 then (if n \<ge> 1 \<and> visible then Some n else first_result v rest)
          else first_result v rest
      | Query_raises \<Rightarrow> first_result v rest)"

fun poll :: "(nat \<Rightarrow> view) \<Rightarrow> nat list \<Rightarrow> bool option \<times> event list" where
  \<comment> \<open>the rounds of the loop for the attempts listed: \<open>Some b\<close> when a round returns \<open>b\<close>,
      \<open>None\<close> when the attempts run out\<close>
  "poll timeline [] = (None, [])"
| "poll timeline (attempt # rest) =
     (let v = timeline (Suc attempt);
          popup = handle_popup v;
          no_results = check_no_results v
      in if fst no_results then (Some False, snd popup @ snd no_results)
         else (case first_result v result_selectors of
                 Some n \<Rightarrow> (Some True, snd popup @ snd no_results @ [Printed_found n])
               | None \<Rightarrow>
                  (case poll timeline rest of
                     (r, evs) \<Rightarrow> (r, snd popup @ snd no_results @ [Sleep 500] @ evs))))"

definition wait_for_results :: "(nat \<Rightarrow> view) \<Rightarrow> bool \<times> event list" where
  "wait_for_results timeline =
     (let popup = handle_popup (timeline 0);
          no_results = check_no_results (timeline 0)
      in if fst no_results then (False, snd popup @ snd no_results)
         else (case poll timeline [0..<30] of
                 (Some b, evs) \<Rightarrow> (b, snd popup @ snd no_results @ evs)
               | (None, evs) \<Rightarrow>
                  (let final = check_no_results (timeline 31)
                   in if fst final then (False, snd popup @ snd no_results @ evs @ snd final)
                      else (False, snd popup @ snd no_results @ evs @ snd final
                                   @ [Printed ''Could not determine if results exist'']))))"

definition inconclusive :: "view \<Rightarrow> bool" where
  \<comment> \<open>the view shows neither a sign of an empty result nor a result\<close>
  "inconclusive v = (\<not> fst (check_no_results v) \<and> first_result v result_selectors = None)"


section \<open>Saving and the run\<close>

definition fieldnames :: "string list" where
  "fieldnames =
     [''company_name'', ''address'', ''suburb'', ''state'', ''postcode'', ''telephone'', ''email'',
      ''website'']"

definition clean_company_name :: "string \<Rightarrow> string" where
  "clean_company_name name =
     (if name \<noteq> [] \<and> CHR ''\<newline>'' \<in> set name then py_strip (first_line name) else name)"

definition csv_row :: "(string \<rightharpoonup> string) \<Rightarrow> string list" where
  \<comment> \<open>the cells written for one record, in the order of \<open>fieldnames\<close>\<close>
  "csv_row row =
     map (\<lambda>field. if field = ''company_name'' then clean_company_name (get_or_empty row field)
                   else get_or_empty row field) fieldnames"

fun write_rows :: "string list list \<Rightarrow> (string \<rightharpoonup> string) list \<Rightarrow> string list list" where
  \<comment> \<open>the loop of \<^verbatim>\<open>writer.writerow\<close> over the batch\<close>
  "write_rows file [] = file"
| "write_rows file (row # rows) = write_rows (file @ [csv_row row]) rows"

definition save_to_csv :: "scraper \<Rightarrow> scraper" where
  "save_to_csv self =
     (if results self = [] then self
      else
        (let file_exists = (output_csv self \<noteq> None);
             opened = (case output_csv self of None \<Rightarrow> [] | Some file \<Rightarrow> file);
             headed = (if \<not> file_exists then opened @ [fieldnames] else opened)
         in self\<lparr>output_csv := Some (write_rows headed (results self)), results := []\<rparr>))"

definition SEARCH_TYPES :: "string list" where
  "SEARCH_TYPES = [''aged-care-homes'', ''help-at-home'']"

definition NAV_RETRIES :: nat where
  "NAV_RETRIES = 3"

text \<open>
  What the site answers to one search, given by the search type and the query that
  \<^verbatim>\<open>construct_search_url\<close> puts into the address: whether each \<^verbatim>\<open>page.goto\<close> of the
  results address succeeds, the views of the results page while the detector waits, the results page the
  links are read from, and the detail page behind each link.
\<close>

record search_fixture =
  goto_ok :: "nat \<Rightarrow> bool"
  timeline :: "nat \<Rightarrow> view"
  listing :: results_page
  detail_of :: "string \<Rightarrow> detail_page attempt"

fun goto_attempts :: "(nat \<Rightarrow> bool) \<Rightarrow> nat list \<Rightarrow> bool attempt" where
  "goto_attempts ok [] = Returned False"
| "goto_attempts ok (attempt # rest) =
     (if ok attempt then Returned True
      else if attempt = NAV_RETRIES - 1 then Raised
      else goto_attempts ok rest)"

definition goto_with_retry :: "(nat \<Rightarrow> bool) \<Rightarrow> bool attempt" where
  "goto_with_retry ok = goto_attempts ok [0..<NAV_RETRIES]"

fun scrape_links ::
  "scraper \<Rightarrow> search_fixture \<Rightarrow> string \<Rightarrow> string \<Rightarrow> string list \<Rightarrow> scraper \<times> nat" where
  \<comment> \<open>the loop over the detail links; the number is \<^verbatim>\<open>successful_scrapes\<close>\<close>
  "scrape_links self fx stype squery [] = (self, 0)"
| "scrape_links self fx stype squery (link # links) =
     (let accepted = (scrape_detail_page self (detail_of fx link) link stype squery \<noteq> None);
          self' = process_link self (detail_of fx link) link stype squery
      in case scrape_links self' fx stype squery links of
           (self'', n) \<Rightarrow> (self'', (if accepted then 1 else 0) + n))"

definition run_pair :: "scraper \<Rightarrow> search_fixture \<Rightarrow> string \<Rightarrow> string \<Rightarrow> scraper \<times> nat" where
  \<comment> \<open>one search type at one location; the number is the count of the records accepted\<close>
  "run_pair self fx stype squery =
     (case goto_with_retry (goto_ok fx) of
        Raised \<Rightarrow> (self, 0)
      | Returned _ \<Rightarrow>
          if \<not> fst (wait_for_results (timeline fx)) then (self, 0)
          else (case extract_all_links_from_cards LINK_PER_SEARCH (listing fx) of
                  Raised \<Rightarrow> (self, 0)
                | Returned detail_links \<Rightarrow>
                    if detail_links = [] then (self, 0)
                    else scrape_links self fx stype squery detail_links))"

fun run_search_types ::
  "scraper \<Rightarrow> (string \<Rightarrow> string \<Rightarrow> search_fixture) \<Rightarrow> string \<Rightarrow> string list \<Rightarrow> scraper \<times> nat" where
  "run_search_types self web squery [] = (self, 0)"
| "run_search_types self web squery (stype # stypes) =
     (case run_pair self (web stype squery) stype squery of
        (self', n) \<Rightarrow>
          (case run_search_types self' web squery stypes of
             (self'', m) \<Rightarrow> (self'', n + m)))"

fun run_locations ::
  "scraper \<Rightarrow> (string \<Rightarrow> string \<Rightarrow> search_fixture) \<Rightarrow> location list \<Rightarrow> scraper \<times> nat" where
  \<comment> \<open>the loop over the locations: the batch is saved after each one\<close>
  "run_locations self web [] = (self, 0)"
| "run_locations self web (loc # locs) =
     (case run_search_types self web (construct_search_query loc) SEARCH_TYPES of
        (self', n) \<Rightarrow>
          (case run_locations (save_to_csv self') web locs of
             (self'', m) \<Rightarrow> (self'', n + m)))"

definition run :: "scraper \<Rightarrow> (string \<Rightarrow> string \<Rightarrow> search_fixture) \<Rightarrow> location list \<Rightarrow> scraper \<times> nat" where
  \<comment> \<open>the run over the locations loaded; the number counts the records it accepted\<close>
  "run self web locations = (if locations = [] then (self, 0) else run_locations self web locations)"


section \<open>Example pages\<close>

definition sunshine_text :: string where
  "sunshine_text =
     ''SUNSHINE AGED CARE\<newline>Residential aged care home\<newline>Phone: 02 8388 8000\<newline>Email: info@example.com.au\<newline>Government funded places are available at this home''"

definition sunshine_page :: detail_page where
  \<comment> \<open>a provider page with a heading, a telephone and an email address\<close>
  "sunshine_page =
     \<lparr>page_title = ''Sunshine Aged Care | My Aged Care'',
      current_url = ''https://www.myagedcare.gov.au/find-a-provider/aged-care-homes/1234'',
      page_content = ''<html><body><main><h1>SUNSHINE AGED CARE</h1></main></body></html>'',
      inner_text_of = (\<lambda>selector. if selector = ''main'' \<or> selector = ''body''
                                     then InnerText sunshine_text else Missing),
      first_inner_text_of = (\<lambda>selector. if selector = ''h1''
                                           then InnerText ''SUNSHINE AGED CARE'' else Missing),
      timeout_message = ''Timeout 30000ms exceeded.''\<rparr>"


definition fresh_scraper :: scraper where
  \<comment> \<open>the scraper of a first run: nothing saved, no telephone seen\<close>
  "fresh_scraper = \<lparr>results = [], existing_telephones = {}, output_csv = None\<rparr>"

definition sunshine_record :: "string \<Rightarrow> string \<Rightarrow> ProviderData" where
  "sunshine_record url stype =
     \<lparr>company_name = ''SUNSHINE AGED CARE'', address = [], suburb = ''SYDNEY'', state = ''NSW'',
      postcode = ''2000'', telephone = ''02 8388 8000'', email = ''info@example.com.au'',
      website = [], search_type = stype, search_location = ''SYDNEY NSW 2000'',
      result_url = url\<rparr>"

definition acme_record :: ProviderData where
  \<comment> \<open>a record whose company name has a line break\<close>
  "acme_record =
     \<lparr>company_name = ''ACME \<newline>Pty Ltd'', address = [], suburb = ''SYDNEY'', state = ''NSW'',
      postcode = ''2000'', telephone = [], email = [], website = [],
      search_type = ''help-at-home'', search_location = ''SYDNEY NSW 2000'',
      result_url = ''https://www.myagedcare.gov.au/find-a-provider/help-at-home/77''\<rparr>"

definition blank_view :: view where
  \<comment> \<open>a results page that shows no popup, no sign of an empty result and no result\<close>
  "blank_view =
     \<lparr>probe_of = (\<lambda>selector. Found 0 False), click_ok = (\<lambda>selector. True),
      view_url = ''https://www.myagedcare.gov.au/find-a-provider/search/results?searchType=aged-care-homes''\<rparr>"

definition empty_listing :: results_page where
  "empty_listing = \<lparr>cards_of = (\<lambda>selector. Returned []), provider_anchors = Returned []\<rparr>"

definition silent_site :: "string \<Rightarrow> string \<Rightarrow> search_fixture" where
  \<comment> \<open>a site whose results pages never resolve\<close>
  "silent_site stype squery =
     \<lparr>goto_ok = (\<lambda>attempt. True), timeline = (\<lambda>k. blank_view), listing = empty_listing,
      detail_of = (\<lambda>link. Raised)\<rparr>"

definition seen_scraper :: scraper where
  \<comment> \<open>a scraper that has seen the telephone of the example page, written with hyphens\<close>
  "seen_scraper = fresh_scraper\<lparr>existing_telephones := {clean_telephone ''02-8388-8000''}\<rparr>"

definition provider_card :: "string \<Rightarrow> card" where
  \<comment> \<open>a card with one anchor, which leads to a provider\<close>
  "provider_card h =
     (\<lambda>link_selector. if link_selector = ''a[href*='/find-a-provider/']'' \<or> link_selector = ''a''
                       then Returned [Returned (Some h)] else Returned [])"





definition three_card_page :: results_page where
  "three_card_page =
     \<lparr>cards_of = (\<lambda>card_selector. if card_selector = ''article''
                                   then Returned [provider_card ''/find-a-provider/aged-care-homes/1'',
                                                  provider_card ''/find-a-provider/aged-care-homes/2'',
                                                  provider_card ''/find-a-provider/aged-care-homes/3'']
                                   else Returned []),
      provider_anchors = Returned []\<rparr>"






section \<open>The wording of the specification\<close>

text \<open>
  The definitions of this section follow the sentences of the specification, not the
  source; the claims below compare them with the functions translated from the source.
\<close>

fun title_scan :: "bool \<Rightarrow> bool \<Rightarrow> string \<Rightarrow> bool" where
  \<comment> \<open>the scan of \<^verbatim>\<open>str.istitle\<close>: whether the character before is cased, and whether
      a cased character was seen\<close>
  "title_scan prev seen [] = seen"
| "title_scan prev seen (c # cs) =
     (if is_upper_char c then \<not> prev \<and> title_scan True True cs
      else if is_lower_char c then prev \<and> title_scan True True cs
      else title_scan False seen cs)"

definition title_cased :: "string \<Rightarrow> bool" where
  \<comment> \<open>title case: every word begins with a capital and goes on in small letters\<close>
  "title_cased s = title_scan False False s"

definition spec_name_line :: "string \<Rightarrow> bool" where
  \<comment> \<open>a line of 4 to 99 characters, all upper case or title-cased, without a menu keyword\<close>
  "spec_name_line line =
     (4 \<le> length line \<and> length line \<le> 99 \<and> (py_isupper line \<or> title_cased line)
      \<and> \<not> list_ex (\<lambda>keyword. contains keyword (py_lower line)) menu_keywords)"

definition spec_company_name_from_text :: "string \<Rightarrow> string" where
  \<comment> \<open>the first line of the text that qualifies, the empty string when none does\<close>
  "spec_company_name_from_text text =
     (case find spec_name_line (split_on CHR ''\<newline>'' text) of None \<Rightarrow> [] | Some line \<Rightarrow> line)"






section \<open>Facts about the string functions\<close>

lemma is_space_char_upper: "is_space (char_upper c) = is_space c"
  unfolding is_space_def char_upper_def is_lower_char_def Let_def
  by (auto simp: of_char_of)

lemma char_upper_idem: "char_upper (char_upper c) = char_upper c"
  unfolding char_upper_def is_lower_char_def Let_def
  by auto

lemma py_upper_idem: "py_upper (py_upper s) = py_upper s"
  by (simp add: py_upper_def char_upper_idem)

lemma py_upper_append: "py_upper (a @ b) = py_upper a @ py_upper b"
  by (simp add: py_upper_def)

lemma char_upper_blank: "char_upper CHR '' '' = CHR '' ''"
  by (simp add: char_upper_def is_lower_char_def)

lemma is_space_blank: "is_space CHR '' ''"
  by (simp add: is_space_def)

lemma is_token_py_upper: "is_token (py_upper w) = is_token w"
  by (simp add: is_token_def py_upper_def list_ex_iff is_space_char_upper)

lemma split_ws_word:
  "\<not> list_ex is_space w \<Longrightarrow> split_ws cur (w @ rest) = split_ws (cur @ w) rest"
  by (induction w arbitrary: cur) auto

lemma split_ws_three:
  assumes "is_token a" and "is_token b" and "is_token c"
  shows "split_ws [] (a @ '' '' @ b @ '' '' @ c) = [a, b, c]"
proof -
  have a: "\<not> list_ex is_space a" "a \<noteq> []" and b: "\<not> list_ex is_space b" "b \<noteq> []"
    and c: "\<not> list_ex is_space c" "c \<noteq> []"
    using assms by (simp_all add: is_token_def)
  have "split_ws [] (a @ '' '' @ b @ '' '' @ c) = split_ws a ('' '' @ b @ '' '' @ c)"
    using split_ws_word [OF a(1), of "[]"] by simp
  also have "\<dots> = a # split_ws [] (b @ '' '' @ c)"
    using a(2) by (simp add: is_space_blank)
  also have "split_ws [] (b @ '' '' @ c) = split_ws b ('' '' @ c)"
    using split_ws_word [OF b(1), of "[]"] by simp
  also have "\<dots> = b # split_ws [] (c @ [])"
    using b(2) by (simp add: is_space_blank)
  also have "split_ws [] (c @ []) = split_ws c []"
    using split_ws_word [OF c(1), of "[]" "[]"] by simp
  also have "\<dots> = [c]"
    using c(2) by simp
  finally show ?thesis .
qed

lemma py_strip_id:
  assumes "s \<noteq> []" and "\<not> is_space (hd s)" and "\<not> is_space (last s)"
  shows "py_strip s = s"
proof -
  have "dropWhile is_space s = s"
    using assms(1,2) by (cases s) simp_all
  moreover have "dropWhile is_space (rev s) = rev s"
    using assms(1,3) by (cases "rev s") (simp_all add: last_rev [symmetric] hd_rev)
  ultimately show ?thesis
    by (simp add: py_strip_def)
qed

lemma length_split_ws_upper:
  "(cur = []) = (cur' = []) \<Longrightarrow>
   length (split_ws cur (map char_upper s)) = length (split_ws cur' s)"
proof (induction s arbitrary: cur cur')
  case Nil
  then show ?case by simp
next
  case (Cons c s)
  show ?case
  proof (cases "is_space c")
    case True
    then show ?thesis
      using Cons.prems Cons.IH [of "[]" "[]"] by (simp add: is_space_char_upper)
  next
    case False
    then show ?thesis
      using Cons.IH [of "cur @ [char_upper c]" "cur' @ [c]"]
      by (simp add: is_space_char_upper)
  qed
qed

lemma length_py_split_upper: "length (py_split (py_upper q)) = length (py_split q)"
  by (simp add: py_split_def py_upper_def length_split_ws_upper)

section \<open>Facts about saving and the run\<close>

lemma split_on_nonempty: "split_on sep s \<noteq> []"
  by (induction s) (auto split: list.splits)

lemma hd_split_on: "hd (split_on sep s) = takeWhile (\<lambda>c. c \<noteq> sep) s"
  by (induction s) (auto split: list.splits simp: split_on_nonempty)

lemma first_line_takeWhile: "first_line s = takeWhile (\<lambda>c. c \<noteq> CHR ''\<newline>'') s"
  using hd_split_on [of "CHR ''\<newline>''" s] split_on_nonempty [of "CHR ''\<newline>''" s]
  by (cases "split_on CHR ''\<newline>'' s") (simp_all add: first_line_def)

lemma write_rows_append: "write_rows old rows = old @ map csv_row rows"
  by (induction rows arbitrary: old) simp_all

lemma fst_scrape_links_Cons:
  "fst (scrape_links self fx stype squery (link # links)) =
   fst (scrape_links (process_link self (detail_of fx link) link stype squery) fx stype squery links)"
  by (simp add: Let_def split: prod.splits)

lemma snd_scrape_links_Cons:
  "snd (scrape_links self fx stype squery (link # links)) =
   (if scrape_detail_page self (detail_of fx link) link stype squery \<noteq> None then 1 else 0)
   + snd (scrape_links (process_link self (detail_of fx link) link stype squery) fx stype squery links)"
  by (simp add: Let_def split: prod.splits)

lemma fst_run_search_types_Cons:
  "fst (run_search_types self web squery (stype # stypes)) =
   fst (run_search_types (fst (run_pair self (web stype squery) stype squery)) web squery stypes)"
  by (simp split: prod.splits)

lemma snd_run_search_types_Cons:
  "snd (run_search_types self web squery (stype # stypes)) =
   snd (run_pair self (web stype squery) stype squery)
   + snd (run_search_types (fst (run_pair self (web stype squery) stype squery)) web squery stypes)"
  by (simp split: prod.splits)

lemma fst_run_locations_Cons:
  "fst (run_locations self web (loc # locs)) =
   fst (run_locations
         (save_to_csv (fst (run_search_types self web (construct_search_query loc) SEARCH_TYPES)))
         web locs)"
  by (simp split: prod.splits)

lemma snd_run_locations_Cons:
  "snd (run_locations self web (loc # locs)) =
   snd (run_search_types self web (construct_search_query loc) SEARCH_TYPES)
   + snd (run_locations
           (save_to_csv (fst (run_search_types self web (construct_search_query loc) SEARCH_TYPES)))
           web locs)"
  by (simp split: prod.splits)

lemma process_link_rejected:
  "scrape_detail_page self page link stype squery = None \<Longrightarrow>
   process_link self page link stype squery = self"
  by (simp add: process_link_def)

lemma scrape_links_none:
  "snd (scrape_links self fx stype squery links) = 0 \<Longrightarrow>
   fst (scrape_links self fx stype squery links) = self"
proof (induction links arbitrary: self)
  case Nil
  then show ?case by simp
next
  case (Cons link links)
  let ?self' = "process_link self (detail_of fx link) link stype squery"
  from Cons.prems [unfolded snd_scrape_links_Cons]
  have rej: "scrape_detail_page self (detail_of fx link) link stype squery = None"
    and rest: "snd (scrape_links ?self' fx stype squery links) = 0"
    by (simp_all split: if_splits)
  from rej have "?self' = self" by (rule process_link_rejected)
  with Cons.IH [of self] rest show ?case
    unfolding fst_scrape_links_Cons by simp
qed

lemma run_pair_none:
  "snd (run_pair self fx stype squery) = 0 \<Longrightarrow> fst (run_pair self fx stype squery) = self"
  by (auto simp: run_pair_def scrape_links_none split: attempt.splits if_splits)

lemma run_search_types_none:
  "snd (run_search_types self web squery stypes) = 0 \<Longrightarrow>
   fst (run_search_types self web squery stypes) = self"
proof (induction stypes arbitrary: self)
  case Nil
  then show ?case by simp
next
  case (Cons stype stypes)
  from Cons.prems [unfolded snd_run_search_types_Cons]
  have "snd (run_pair self (web stype squery) stype squery) = 0"
    and rest: "snd (run_search_types (fst (run_pair self (web stype squery) stype squery))
                      web squery stypes) = 0"
    by simp_all
  then have "fst (run_pair self (web stype squery) stype squery) = self"
    by (simp add: run_pair_none)
  with rest Cons.IH [of self] show ?case
    unfolding fst_run_search_types_Cons by simp
qed

lemma save_to_csv_empty: "results self = [] \<Longrightarrow> save_to_csv self = self"
  by (simp add: save_to_csv_def)

lemma run_locations_none:
  "results self = [] \<Longrightarrow> snd (run_locations self web locs) = 0 \<Longrightarrow>
   fst (run_locations self web locs) = self"
proof (induction locs arbitrary: self)
  case Nil
  then show ?case by simp
next
  case (Cons loc locs)
  let ?s1 = "fst (run_search_types self web (construct_search_query loc) SEARCH_TYPES)"
  from Cons.prems(2) [unfolded snd_run_locations_Cons]
  have "snd (run_search_types self web (construct_search_query loc) SEARCH_TYPES) = 0"
    and rest: "snd (run_locations (save_to_csv ?s1) web locs) = 0"
    by simp_all
  then have "?s1 = self"
    by (simp add: run_search_types_none)
  with Cons.prems(1) have "save_to_csv ?s1 = self"
    by (simp add: save_to_csv_empty)
  with rest Cons.IH [of self] Cons.prems(1) show ?case
    unfolding fst_run_locations_Cons by simp
qed

lemma add_telephone_mono:
  "existing_telephones self \<subseteq> existing_telephones (add_telephone_to_memory self tel)"
  by (auto simp: add_telephone_to_memory_def Let_def)

lemma process_link_mono:
  "existing_telephones self \<subseteq> existing_telephones (process_link self page link stype squery)"
  using add_telephone_mono by (auto simp: process_link_def Let_def split: option.splits)

lemma scrape_links_mono:
  "existing_telephones self \<subseteq> existing_telephones (fst (scrape_links self fx stype squery links))"
proof (induction links arbitrary: self)
  case Nil
  then show ?case by simp
next
  case (Cons link links)
  let ?self' = "process_link self (detail_of fx link) link stype squery"
  have "existing_telephones self \<subseteq> existing_telephones ?self'"
    by (rule process_link_mono)
  also have "\<dots> \<subseteq> existing_telephones (fst (scrape_links ?self' fx stype squery links))"
    by (rule Cons.IH)
  finally show ?case
    unfolding fst_scrape_links_Cons by simp
qed

lemma run_pair_mono:
  "existing_telephones self \<subseteq> existing_telephones (fst (run_pair self fx stype squery))"
  using scrape_links_mono by (auto simp: run_pair_def split: attempt.splits)

lemma run_search_types_mono:
  "existing_telephones self \<subseteq> existing_telephones (fst (run_search_types self web squery stypes))"
proof (induction stypes arbitrary: self)
  case Nil
  then show ?case by simp
next
  case (Cons stype stypes)
  let ?s1 = "fst (run_pair self (web stype squery) stype squery)"
  have "existing_telephones self \<subseteq> existing_telephones ?s1"
    by (rule run_pair_mono)
  also have "\<dots> \<subseteq> existing_telephones (fst (run_search_types ?s1 web squery stypes))"
    by (rule Cons.IH)
  finally show ?case
    unfolding fst_run_search_types_Cons by simp
qed

lemma save_to_csv_telephones: "existing_telephones (save_to_csv self) = existing_telephones self"
  by (simp add: save_to_csv_def Let_def)

lemma run_locations_mono:
  "existing_telephones self \<subseteq> existing_telephones (fst (run_locations self web locs))"
proof (induction locs arbitrary: self)
  case Nil
  then show ?case by simp
next
  case (Cons loc locs)
  let ?s1 = "fst (run_search_types self web (construct_search_query loc) SEARCH_TYPES)"
  have "existing_telephones self \<subseteq> existing_telephones ?s1"
    by (rule run_search_types_mono)
  also have "\<dots> = existing_telephones (save_to_csv ?s1)"
    by (simp add: save_to_csv_telephones)
  also have "\<dots> \<subseteq> existing_telephones (fst (run_locations (save_to_csv ?s1) web locs))"
    by (rule Cons.IH)
  finally show ?case
    unfolding fst_run_locations_Cons by simp
qed

lemma run_mono:
  "existing_telephones self \<subseteq> existing_telephones (fst (run self web locs))"
  using run_locations_mono by (simp add: run_def)

lemma scrape_accepts_iff:
  "passes_validity_gates pg \<Longrightarrow>
   (scrape_detail_page self (Returned pg) url stype sloc \<noteq> None) =
   (extract_telephone (extract_all_text_from_page pg) = []
    \<or> clean_telephone (extract_telephone (extract_all_text_from_page pg)) \<notin> existing_telephones self)"
  by (auto simp: passes_validity_gates_def scrape_detail_page_def Let_def is_duplicate_telephone_def
           split: prod.splits)

section \<open>Facts about the company name\<close>

lemma first_name_line_none:
  "\<forall>l \<in> set ls. \<not> name_line (py_strip l) \<Longrightarrow> first_name_line ls = []"
  by (induction ls) (simp_all add: Let_def)

lemma first_name_line_at:
  "i < length ls \<Longrightarrow> name_line (py_strip (ls ! i)) \<Longrightarrow>
   \<forall>j < i. \<not> name_line (py_strip (ls ! j)) \<Longrightarrow> first_name_line ls = py_strip (ls ! i)"
proof (induction ls arbitrary: i)
  case Nil
  then show ?case by simp
next
  case (Cons l ls)
  show ?case
  proof (cases i)
    case 0
    with Cons.prems show ?thesis by (simp add: Let_def)
  next
    case (Suc k)
    with Cons.prems have "\<not> name_line (py_strip l)" by auto
    moreover have "first_name_line ls = py_strip (ls ! k)"
      using Cons.prems Suc by (intro Cons.IH) auto
    ultimately show ?thesis using Suc by (simp add: Let_def)
  qed
qed

lemma split_ws_words:
  "w \<in> set (split_ws cur s) \<Longrightarrow> w \<noteq> []"
  by (induction cur s rule: split_ws.induct) (auto split: if_splits)

lemma word_starts_upper_hd: "w \<noteq> [] \<Longrightarrow> word_starts_upper w = is_upper_char (hd w)"
  by (cases w) (simp_all add: word_starts_upper_def)

lemma word_starts_upper_split:
  "list_ex word_starts_upper (py_split line) = (\<exists>word \<in> set (py_split line). is_upper_char (hd word))"
  unfolding list_ex_iff py_split_def
  by (rule bex_cong [OF refl]) (rule word_starts_upper_hd, rule split_ws_words)

section \<open>Facts about the harvester\<close>

lemma hrefs_of_Cons:
  "hrefs_of (e # es) = (case e of Returned (Some h) \<Rightarrow> (if h = [] then {} else {h}) | _ \<Rightarrow> {}) \<union> hrefs_of es"
  by (auto simp: hrefs_of_def split: attempt.splits option.splits)

lemma scan_hrefs_extends:
  "\<exists>ext. scan_hrefs links es = links @ ext \<and> length ext \<le> 1
         \<and> set ext \<subseteq> {u \<in> full_url ` hrefs_of es. detail_shape u \<and> u \<notin> set links}"
proof (induction links es rule: scan_hrefs.induct)
  case (1 links)
  then show ?case by simp
next
  case (2 links es)
  then show ?case by (auto simp: hrefs_of_Cons)
next
  case (3 links es)
  then show ?case by (auto simp: hrefs_of_Cons)
next
  case (4 links h es)
  show ?case
  proof (cases "h \<noteq> [] \<and> detail_shape (full_url h) \<and> full_url h \<notin> set links")
    case True
    then show ?thesis by (auto simp: hrefs_of_Cons)
  next
    case False
    with 4 obtain ext where "scan_hrefs links es = links @ ext" "length ext \<le> 1"
      "set ext \<subseteq> {u \<in> full_url ` hrefs_of es. detail_shape u \<and> u \<notin> set links}"
      by blast
    with False show ?thesis
      by (intro exI [of _ ext]) (auto simp: hrefs_of_Cons)
  qed
qed

lemma scan_hrefs_ok:
  "links_ok H links \<Longrightarrow> hrefs_of es \<subseteq> H \<Longrightarrow> links_ok H (scan_hrefs links es)"
proof -
  assume ok: "links_ok H links" and sub: "hrefs_of es \<subseteq> H"
  obtain ext where e: "scan_hrefs links es = links @ ext" "length ext \<le> 1"
      "set ext \<subseteq> {u \<in> full_url ` hrefs_of es. detail_shape u \<and> u \<notin> set links}"
    using scan_hrefs_extends [of links es] by blast
  from e(2) have "distinct ext" by (cases ext) simp_all
  moreover from e(3) sub have "set ext \<subseteq> full_url ` H" by blast
  moreover from e(3) have "set ext \<inter> set links = {}" "\<forall>u \<in> set ext. detail_shape u" by blast+
  ultimately show ?thesis
    using ok e(1) by (auto simp: links_ok_def)
qed




lemma scan_link_selectors_ok:
  "links_ok H links \<Longrightarrow>
   (\<forall>sel \<in> set sels. \<forall>es. c sel = Returned es \<longrightarrow> hrefs_of es \<subseteq> H) \<Longrightarrow>
   links_ok H (scan_link_selectors c i links sels)"
proof (induction sels arbitrary: links)
  case Nil
  then show ?case by simp
next
  case (Cons sel sels)
  show ?case
  proof (cases "c sel")
    case Raised
    with Cons show ?thesis by simp
  next
    case (Returned es)
    with Cons.prems have "links_ok H (scan_hrefs links es)"
      by (intro scan_hrefs_ok) auto
    with Cons Returned show ?thesis by (simp add: Let_def)
  qed
qed


lemma card_hrefs_sub:
  "sel \<in> set link_selectors \<Longrightarrow> c sel = Returned es \<Longrightarrow> hrefs_of es \<subseteq> card_hrefs c"
  by (force simp: card_hrefs_def)

lemma scan_cards_ok:
  "links_ok H links \<Longrightarrow> (\<forall>c \<in> set cs. card_hrefs c \<subseteq> H) \<Longrightarrow> links_ok H (scan_cards cs i links)"
proof (induction cs arbitrary: i links)
  case Nil
  then show ?case by simp
next
  case (Cons c cs)
  have "links_ok H (scan_link_selectors c i links link_selectors)"
    using Cons.prems card_hrefs_sub [of _ c] by (intro scan_link_selectors_ok) auto
  with Cons show ?case by simp
qed


lemma scan_card_selectors_ok:
  "links_ok H links \<Longrightarrow>
   (\<forall>sel \<in> set sels. \<forall>cs. cards_of pg sel = Returned cs \<longrightarrow> (\<forall>c \<in> set cs. card_hrefs c \<subseteq> H)) \<Longrightarrow>
   links_ok H (scan_card_selectors pg sels links)"
proof (induction sels arbitrary: links)
  case Nil
  then show ?case by simp
next
  case (Cons sel sels)
  show ?case
  proof (cases "cards_of pg sel")
    case Raised
    with Cons show ?thesis by simp
  next
    case (Returned cs)
    with Cons.prems have "links_ok H (scan_cards cs 0 links)"
      by (intro scan_cards_ok) auto
    with Cons Returned show ?thesis by simp
  qed
qed


lemma scan_anchors_ok:
  "links_ok H links \<Longrightarrow> hrefs_of es \<subseteq> H \<Longrightarrow> links_ok H (scan_anchors links es)"
proof (induction links es rule: scan_anchors.induct)
  case (4 links h es)
  show ?case
  proof (cases "h \<noteq> [] \<and> detail_shape (full_url h) \<and> full_url h \<notin> set links")
    case True
    with "4.prems" have "links_ok H (links @ [full_url h])"
      by (auto simp: links_ok_def hrefs_of_Cons)
    with 4 True show ?thesis by (simp add: hrefs_of_Cons)
  next
    case False
    with 4 show ?thesis by (auto simp: hrefs_of_Cons split: if_splits)
  qed
qed (auto simp: hrefs_of_Cons)

lemma page_hrefs_cards:
  "sel \<in> set card_selectors \<Longrightarrow> cards_of pg sel = Returned cs \<Longrightarrow> c \<in> set cs \<Longrightarrow>
   card_hrefs c \<subseteq> page_hrefs pg"
  by (force simp: page_hrefs_def)

lemma page_hrefs_anchors:
  "provider_anchors pg = Returned es \<Longrightarrow> hrefs_of es \<subseteq> page_hrefs pg"
  by (auto simp: page_hrefs_def)

lemma collect_links_ok:
  "collect_links pg = Returned links \<Longrightarrow> links_ok (page_hrefs pg) links"
proof -
  assume c: "collect_links pg = Returned links"
  have nil: "links_ok (page_hrefs pg) []" by (simp add: links_ok_def)
  have cards: "links_ok (page_hrefs pg) (scan_card_selectors pg card_selectors [])"
    using page_hrefs_cards [of _ pg] by (intro scan_card_selectors_ok nil) blast
  show ?thesis
  proof (cases "scan_card_selectors pg card_selectors [] = []")
    case False
    with c cards show ?thesis by (simp add: collect_links_def Let_def)
  next
    case True
    with c obtain es where es: "provider_anchors pg = Returned es" "links = scan_anchors [] es"
      by (auto simp: collect_links_def Let_def split: attempt.splits)
    then show ?thesis
      using scan_anchors_ok [OF nil page_hrefs_anchors [OF es(1)]] by simp
  qed
qed






lemma filter_results_id:
  "links_ok H links \<Longrightarrow> filter (\<lambda>link. \<not> contains ''results'' link) links = links"
  by (auto simp: links_ok_def detail_shape_def filter_id_conv)








section \<open>Facts about the wait for the results\<close>

lemma handle_popup_from_quiet:
  "count_list (snd (handle_popup_from v sels)) (Sleep 500) = 0
   \<and> count_list (snd (handle_popup_from v sels)) No_results_check = 0"
  by (induction sels) (auto split: probe.splits prod.splits)

lemma handle_popup_quiet:
  "count_list (snd (handle_popup v)) (Sleep 500) = 0"
  "count_list (snd (handle_popup v)) No_results_check = 0"
  using handle_popup_from_quiet [of v popup_selectors] by (simp_all add: handle_popup_def)

lemma check_no_results_counts:
  "count_list (snd (check_no_results v)) (Sleep 500) = 0"
  "count_list (snd (check_no_results v)) No_results_check = 1"
  by (simp_all add: check_no_results_def)

lemma count_list_append: "count_list (xs @ ys) x = count_list xs x + count_list ys x"
  by (induction xs) simp_all

lemma poll_Cons:
  "poll tline (a # rest) =
     (if fst (check_no_results (tline (Suc a)))
      then (Some False, snd (handle_popup (tline (Suc a))) @ snd (check_no_results (tline (Suc a))))
      else case first_result (tline (Suc a)) result_selectors of
             Some n \<Rightarrow> (Some True, snd (handle_popup (tline (Suc a)))
                                   @ snd (check_no_results (tline (Suc a))) @ [Printed_found n])
           | None \<Rightarrow> (fst (poll tline rest),
                      snd (handle_popup (tline (Suc a))) @ snd (check_no_results (tline (Suc a)))
                      @ [Sleep 500] @ snd (poll tline rest)))"
  by (simp add: Let_def split: prod.splits option.splits)

lemma poll_bound:
  "count_list (snd (poll tline xs)) (Sleep 500) \<le> length xs
   \<and> count_list (snd (poll tline xs)) No_results_check \<le> length xs"
proof (induction xs)
  case Nil
  then show ?case by simp
next
  case (Cons a xs)
  then show ?case
    unfolding poll_Cons
    by (auto simp: count_list_append handle_popup_quiet check_no_results_counts split: option.splits)
qed

lemma poll_inconclusive:
  "\<forall>a \<in> set xs. inconclusive (tline (Suc a)) \<Longrightarrow>
   fst (poll tline xs) = None
   \<and> count_list (snd (poll tline xs)) (Sleep 500) = length xs
   \<and> count_list (snd (poll tline xs)) No_results_check = length xs"
proof (induction xs)
  case Nil
  then show ?case by simp
next
  case (Cons a xs)
  then show ?case
    unfolding poll_Cons
    by (auto simp: inconclusive_def count_list_append handle_popup_quiet check_no_results_counts)
qed

lemma wait_for_results_unfold:
  "wait_for_results tline =
     (if fst (check_no_results (tline 0))
      then (False, snd (handle_popup (tline 0)) @ snd (check_no_results (tline 0)))
      else case fst (poll tline [0..<30]) of
             Some b \<Rightarrow> (b, snd (handle_popup (tline 0)) @ snd (check_no_results (tline 0))
                           @ snd (poll tline [0..<30]))
           | None \<Rightarrow>
              (False, snd (handle_popup (tline 0)) @ snd (check_no_results (tline 0))
                      @ snd (poll tline [0..<30]) @ snd (check_no_results (tline 31))
                      @ (if fst (check_no_results (tline 31)) then []
                         else [Printed ''Could not determine if results exist''])))"
  by (simp add: wait_for_results_def Let_def split: prod.splits option.splits)

lemma wait_for_results_bound:
  "count_list (snd (wait_for_results tline)) (Sleep 500) \<le> 30
   \<and> count_list (snd (wait_for_results tline)) No_results_check \<le> 32"
  using poll_bound [of tline "[0..<30]"]
  unfolding wait_for_results_unfold
  by (auto simp: count_list_append handle_popup_quiet check_no_results_counts split: option.splits)

lemma check_inconclusive_log:
  "inconclusive v \<Longrightarrow> snd (check_no_results v) = [No_results_check]"
  by (auto simp: inconclusive_def check_no_results_def split: if_splits)

lemma wait_for_results_inconclusive:
  assumes "\<forall>k. inconclusive (tline k)"
  shows "fst (wait_for_results tline) = False"
    and "count_list (snd (wait_for_results tline)) (Sleep 500) = 30"
    and "count_list (snd (wait_for_results tline)) No_results_check = 32"
    and "\<exists>evs. snd (wait_for_results tline)
            = evs @ [No_results_check, Printed ''Could not determine if results exist'']"
proof -
  have p: "fst (poll tline [0..<30]) = None"
    "count_list (snd (poll tline [0..<30])) (Sleep 500) = 30"
    "count_list (snd (poll tline [0..<30])) No_results_check = 30"
    using poll_inconclusive [of "[0..<30]" tline] assms by simp_all
  have c: "\<not> fst (check_no_results (tline 0))" "\<not> fst (check_no_results (tline 31))"
    using assms by (simp_all add: inconclusive_def)
  have l: "snd (check_no_results (tline 31)) = [No_results_check]"
    using assms by (simp add: check_inconclusive_log)
  show "fst (wait_for_results tline) = False"
    unfolding wait_for_results_unfold using p c by simp
  show "count_list (snd (wait_for_results tline)) (Sleep 500) = 30"
    unfolding wait_for_results_unfold using p c
    by (simp add: count_list_append handle_popup_quiet check_no_results_counts)
  show "count_list (snd (wait_for_results tline)) No_results_check = 32"
    unfolding wait_for_results_unfold using p c
    by (simp add: count_list_append handle_popup_quiet check_no_results_counts)
  show "\<exists>evs. snd (wait_for_results tline)
            = evs @ [No_results_check, Printed ''Could not determine if results exist'']"
    unfolding wait_for_results_unfold using p c l
    by (intro exI [of _ "snd (handle_popup (tline 0)) @ snd (check_no_results (tline 0))
                      @ snd (poll tline [0..<30])"]) simp
qed

lemma run_pair_skips:
  "\<not> fst (wait_for_results (timeline fx)) \<Longrightarrow> run_pair self fx stype squery = (self, 0)"
  by (simp add: run_pair_def split: attempt.splits)

section \<open>Facts about the matcher and the telephone patterns\<close>

lemma app_last:
  "snd cur = w1 @ snd mid \<Longrightarrow> fst mid = (if w1 = [] then fst cur else Some (last w1)) \<Longrightarrow>
   snd mid = w2 @ snd cur' \<Longrightarrow> fst cur' = (if w2 = [] then fst mid else Some (last w2)) \<Longrightarrow>
   \<exists>w. snd cur = w @ snd cur' \<and> fst cur' = (if w = [] then fst cur else Some (last w))"
  by (rule exI [of _ "w1 @ w2"]) simp

lemma rmatch_suffix:
  "cur' \<in> set (rmatch r cur) \<Longrightarrow>
   \<exists>w. snd cur = w @ snd cur' \<and> fst cur' = (if w = [] then fst cur else Some (last w))"
proof (induction r cur arbitrary: cur' rule: rmatch.induct)
  case (1 cur)
  then show ?case by simp
next
  case (2 P cur)
  show ?case
  proof (cases "snd cur")
    case Nil
    with 2 show ?thesis by simp
  next
    case (Cons c cs)
    with 2 have "P c" and "cur' = (Some c, cs)" by (simp_all split: if_splits)
    with Cons show ?thesis by (intro exI [of _ "[c]"]) simp
  qed
next
  case (3 cur)
  then have "cur' = cur" by (simp split: if_splits)
  then show ?case by simp
next
  case (4 a b cur)
  from 4(3) obtain mid where mid: "mid \<in> set (rmatch a cur)" and c': "cur' \<in> set (rmatch b mid)"
    by auto
  from "4.IH"(1) [OF mid] obtain w1 where w1: "snd cur = w1 @ snd mid"
    "fst mid = (if w1 = [] then fst cur else Some (last w1))" by blast
  from "4.IH"(2) [OF mid c'] obtain w2 where w2: "snd mid = w2 @ snd cur'"
    "fst cur' = (if w2 = [] then fst mid else Some (last w2))" by blast
  show ?case
    using w1 w2 by (rule app_last)
next
  case (5 a b cur)
  from 5(3) have "cur' \<in> set (rmatch a cur) \<or> cur' \<in> set (rmatch b cur)" by simp
  with "5.IH" show ?case by blast
next
  case (6 r cur)
  from 6(3) have "cur' = cur \<or> (\<exists>mid. mid \<in> set (rmatch r cur)
        \<and> length (snd mid) < length (snd cur) \<and> cur' \<in> set (rmatch (Star r) mid))"
    by (subst (asm) rmatch.simps(6)) auto
  then consider "cur' = cur"
    | mid where "mid \<in> set (rmatch r cur)" "length (snd mid) < length (snd cur)"
        "cur' \<in> set (rmatch (Star r) mid)"
    by blast
  then show ?case
  proof cases
    case 1
    then show ?thesis by simp
  next
    case 2
    from "6.IH"(1) [OF 2(1)] obtain w1 where w1: "snd cur = w1 @ snd mid"
      "fst mid = (if w1 = [] then fst cur else Some (last w1))" by blast
    from "6.IH"(2) [of mid cur'] 2 obtain w2 where w2: "snd mid = w2 @ snd cur'"
      "fst cur' = (if w2 = [] then fst mid else Some (last w2))" by auto
    show ?thesis
      using w1 w2 by (rule app_last)
  qed
qed

lemma scan_all_matches:
  "m \<in> set (scan_all r cur) \<Longrightarrow> \<exists>c c'. c' \<in> set (rmatch r c) \<and> m = matched_text c c'"
proof (induction r cur rule: scan_all.induct)
  case (1 r cur)
  note mem = "1.prems" [unfolded scan_all.simps [of r cur]]
  show ?case
  proof (cases "rmatch r cur")
    case Nil
    show ?thesis
    proof (cases "advance cur")
      case None
      with Nil mem show ?thesis by simp
    next
      case (Some nxt)
      with Nil mem have "m \<in> set (scan_all r nxt)" by simp
      with "1.IH"(1) [OF Nil Some] show ?thesis .
    qed
  next
    case (Cons c' rest)
    then have here: "c' \<in> set (rmatch r cur)" by simp
    show ?thesis
    proof (cases "length (snd c') < length (snd cur)")
      case True
      with Cons mem have "m = matched_text cur c' \<or> m \<in> set (scan_all r c')" by simp
      with here "1.IH"(2) [OF Cons True] show ?thesis by blast
    next
      case False
      have empty: "matched_text cur c' = []"
        using False by (simp add: matched_text_def)
      show ?thesis
      proof (cases "advance cur")
        case None
        with Cons False mem have "m = []" by simp
        with here empty show ?thesis by metis
      next
        case (Some nxt)
        with Cons False mem have "m = [] \<or> m \<in> set (scan_all r nxt)" by simp
        with here empty "1.IH"(3) [OF Cons False Some] show ?thesis by metis
      qed
    qed
  qed
qed


lemma seqs_Cons: "rs \<noteq> [] \<Longrightarrow> seqs (r # rs) = Seq r (seqs rs)"
  by (cases rs) simp_all

lemma rmatch_Seq_mem:
  "cur' \<in> set (rmatch (Seq a b) cur) = (\<exists>mid \<in> set (rmatch a cur). cur' \<in> set (rmatch b mid))"
  by auto

lemma digit_Bnd_ends:
  "cur' \<in> set (rmatch (Seq digit Bnd) cur) \<Longrightarrow> \<exists>e. fst cur' = Some e \<and> is_digit e"
  by (cases "snd cur") (auto simp: digit_def split: if_splits)

lemma seqs_ends_digit:
  "cur' \<in> set (rmatch (seqs (rs @ [digit, Bnd])) cur) \<Longrightarrow> \<exists>e. fst cur' = Some e \<and> is_digit e"
proof (induction rs arbitrary: cur)
  case Nil
  then show ?case using digit_Bnd_ends [of cur' cur] by simp
next
  case (Cons r rs)
  have "seqs ((r # rs) @ [digit, Bnd]) = Seq r (seqs (rs @ [digit, Bnd]))"
    by (simp add: seqs_Cons)
  with Cons.prems obtain mid where "cur' \<in> set (rmatch (seqs (rs @ [digit, Bnd])) mid)"
    by (auto simp: rmatch_Seq_mem)
  then show ?case by (rule Cons.IH)
qed

lemma Bnd_digit_starts:
  assumes "rs \<noteq> []" and "cur' \<in> set (rmatch (seqs (Bnd # digit # rs)) cur)"
  shows "(\<exists>d ds. snd cur = d # ds \<and> is_digit d) \<and> length (snd cur') < length (snd cur)"
proof -
  have "seqs (Bnd # digit # rs) = Seq Bnd (Seq digit (seqs rs))"
    using assms(1) by (simp add: seqs_Cons)
  with assms(2) obtain mid where mid: "mid \<in> set (rmatch digit cur)"
    and rest: "cur' \<in> set (rmatch (seqs rs) mid)"
    by (auto simp: rmatch_Seq_mem split: if_splits)
  from mid obtain d ds where d: "snd cur = d # ds" "is_digit d" "mid = (Some d, ds)"
    by (cases "snd cur") (auto simp: digit_def split: if_splits)
  from rmatch_suffix [OF rest] obtain w where "snd mid = w @ snd cur'" by blast
  with d show ?thesis by simp
qed

lemma phone_shaped_match:
  assumes "phone_shaped p" and "cur' \<in> set (rmatch p cur)"
  shows "matched_text cur cur' \<noteq> [] \<and> is_digit (hd (matched_text cur cur'))
         \<and> is_digit (last (matched_text cur cur'))"
proof -
  from assms(1) obtain rs qs where p: "rs \<noteq> []" "p = seqs (Bnd # digit # rs)"
    "Bnd # digit # rs = qs @ [digit, Bnd]"
    unfolding phone_shaped_def by blast
  from Bnd_digit_starts [OF p(1)] assms(2) p(2)
  obtain d ds where d: "snd cur = d # ds" "is_digit d" and len: "length (snd cur') < length (snd cur)"
    by blast
  have "p = seqs (qs @ [digit, Bnd])" using p(2,3) by simp
  with assms(2) have "cur' \<in> set (rmatch (seqs (qs @ [digit, Bnd])) cur)" by simp
  then have "\<exists>e. fst cur' = Some e \<and> is_digit e"
    by (rule seqs_ends_digit)
  then obtain e where e: "fst cur' = Some e" "is_digit e" by blast
  from rmatch_suffix [OF assms(2)] obtain w where w: "snd cur = w @ snd cur'"
    "fst cur' = (if w = [] then fst cur else Some (last w))" by blast
  from w(1) len have ne: "w \<noteq> []" by auto
  from w(1) have m: "matched_text cur cur' = w" by (simp add: matched_text_def)
  from ne w(1) d have "hd w = d" by (cases w) simp_all
  moreover from ne w(2) e have "last w = e" by simp
  ultimately show ?thesis using m ne d(2) e(2) by simp
qed

lemma telephone_patterns_shaped: "p \<in> set telephone_patterns \<Longrightarrow> phone_shaped p"
proof -
  assume "p \<in> set telephone_patterns"
  then consider
      "p = seqs ([Bnd] @ digits 2 @ [lit CHR '' ''] @ digits 4 @ [lit CHR '' ''] @ digits 4 @ [Bnd])"
    | "p = seqs ([Bnd] @ digits 4 @ [lit CHR '' ''] @ digits 3 @ [lit CHR '' ''] @ digits 3 @ [Bnd])"
    | "p = seqs ([Bnd] @ digits 2 @ [lit CHR ''-''] @ digits 4 @ [lit CHR ''-''] @ digits 4 @ [Bnd])"
    | "p = seqs ([Bnd] @ digits 4 @ [lit CHR ''-''] @ digits 3 @ [lit CHR ''-''] @ digits 3 @ [Bnd])"
    | "p = seqs ([Bnd] @ digits 8 @ [Bnd])"
    | "p = seqs ([Bnd] @ digits 10 @ [Bnd])"
    unfolding telephone_patterns_def by auto
  then show ?thesis
  proof cases
    case 1
    show ?thesis unfolding phone_shaped_def 1
      by (rule exI [of _ "[digit, lit CHR '' ''] @ digits 4 @ [lit CHR '' ''] @ digits 4 @ [Bnd]"],
          intro conjI, simp, simp add: digits_def numeral_eq_Suc,
          rule exI [of _ "[Bnd] @ digits 2 @ [lit CHR '' ''] @ digits 4 @ [lit CHR '' ''] @ digits 3"],
          simp add: digits_def numeral_eq_Suc)
  next
    case 2
    show ?thesis unfolding phone_shaped_def 2
      by (rule exI [of _ "digits 3 @ [lit CHR '' ''] @ digits 3 @ [lit CHR '' ''] @ digits 3 @ [Bnd]"],
          intro conjI, simp, simp add: digits_def numeral_eq_Suc,
          rule exI [of _ "[Bnd] @ digits 4 @ [lit CHR '' ''] @ digits 3 @ [lit CHR '' ''] @ digits 2"],
          simp add: digits_def numeral_eq_Suc)
  next
    case 3
    show ?thesis unfolding phone_shaped_def 3
      by (rule exI [of _ "[digit, lit CHR ''-''] @ digits 4 @ [lit CHR ''-''] @ digits 4 @ [Bnd]"],
          intro conjI, simp, simp add: digits_def numeral_eq_Suc,
          rule exI [of _ "[Bnd] @ digits 2 @ [lit CHR ''-''] @ digits 4 @ [lit CHR ''-''] @ digits 3"],
          simp add: digits_def numeral_eq_Suc)
  next
    case 4
    show ?thesis unfolding phone_shaped_def 4
      by (rule exI [of _ "digits 3 @ [lit CHR ''-''] @ digits 3 @ [lit CHR ''-''] @ digits 3 @ [Bnd]"],
          intro conjI, simp, simp add: digits_def numeral_eq_Suc,
          rule exI [of _ "[Bnd] @ digits 4 @ [lit CHR ''-''] @ digits 3 @ [lit CHR ''-''] @ digits 2"],
          simp add: digits_def numeral_eq_Suc)
  next
    case 5
    show ?thesis unfolding phone_shaped_def 5
      by (rule exI [of _ "digits 7 @ [Bnd]"],
          intro conjI, simp, simp add: digits_def numeral_eq_Suc,
          rule exI [of _ "[Bnd] @ digits 7"],
          simp add: digits_def numeral_eq_Suc)
  next
    case 6
    show ?thesis unfolding phone_shaped_def 6
      by (rule exI [of _ "digits 9 @ [Bnd]"],
          intro conjI, simp, simp add: digits_def numeral_eq_Suc,
          rule exI [of _ "[Bnd] @ digits 9"],
          simp add: digits_def numeral_eq_Suc)
  qed
qed

lemma is_digit_not_space: "is_digit c \<Longrightarrow> \<not> is_space c"
  by (simp add: is_digit_def is_space_def Let_def)

lemma telephone_candidate:
  assumes "p \<in> set telephone_patterns" and "m \<in> set (re_findall p text)"
  shows "m \<noteq> [] \<and> is_digit (hd m) \<and> is_digit (last m) \<and> py_strip m = m"
proof -
  from assms(2) obtain c c' where "c' \<in> set (rmatch p c)" "m = matched_text c c'"
    using scan_all_matches [of m p "(None, text)"] by (auto simp: re_findall_def)
  with phone_shaped_match [OF telephone_patterns_shaped [OF assms(1)], of c' c]
  have s: "m \<noteq> []" "is_digit (hd m)" "is_digit (last m)" by simp_all
  then have "py_strip m = m"
    by (intro py_strip_id) (simp_all add: is_digit_not_space)
  with s show ?thesis by simp
qed

lemma find_Some_mem: "find P xs = Some x \<Longrightarrow> x \<in> set xs"
  by (induction xs) (auto split: if_splits)

lemma first_phone_find:
  "first_phone ms = map_option py_strip (find (\<lambda>m. \<not> looks_like_date m) ms)"
  by (induction ms) simp_all

lemma find_append_cases:
  "find P (xs @ ys) = (case find P xs of None \<Rightarrow> find P ys | Some x \<Rightarrow> Some x)"
  by (induction xs) simp_all

lemma try_patterns_find:
  "try_patterns ps text =
     (case find (\<lambda>m. \<not> looks_like_date m) (concat (map (\<lambda>p. re_findall p text) ps)) of
        None \<Rightarrow> [] | Some m \<Rightarrow> py_strip m)"
proof (induction ps)
  case Nil
  then show ?case by simp
next
  case (Cons p ps)
  show ?case
  proof (cases "re_findall p text = []")
    case True
    with Cons show ?thesis by simp
  next
    case False
    with Cons show ?thesis
      by (simp add: Let_def first_phone_find find_append_cases split: option.splits)
  qed
qed

lemma extract_telephone_find:
  "extract_telephone text =
     (case find (\<lambda>m. \<not> looks_like_date m)
             (concat (map (\<lambda>p. re_findall p text) telephone_patterns)) of
        None \<Rightarrow> [] | Some m \<Rightarrow> m)"
proof (cases "find (\<lambda>m. \<not> looks_like_date m)
             (concat (map (\<lambda>p. re_findall p text) telephone_patterns))")
  case None
  then show ?thesis by (simp add: extract_telephone_def try_patterns_find)
next
  case (Some m)
  then have "m \<in> set (concat (map (\<lambda>p. re_findall p text) telephone_patterns))"
    by (rule find_Some_mem)
  then obtain p where "p \<in> set telephone_patterns" "m \<in> set (re_findall p text)" by auto
  then have "py_strip m = m" using telephone_candidate by blast
  with Some show ?thesis by (simp add: extract_telephone_def try_patterns_find)
qed








section \<open>Facts about the detail page\<close>




lemma not_contains_Cons:
  "\<not> contains sub (c # cs) \<Longrightarrow> \<not> startswith sub (c # cs) \<and> \<not> contains sub cs"
  by simp




section \<open>Claim C2: the search query and its parse\<close>

text \<open>
  C2, as amended. For a location whose locality, state and postcode are each one
  non-empty word without whitespace, and whose postcode is unchanged by upper-casing,
  parsing the query built from the location returns the upper-cased locality, the
  upper-cased state and the postcode. For every query with fewer than three
  whitespace-separated words the parse returns three empty strings.
\<close>

theorem parse_inverts_construct:
  "(is_token (get_or_empty loc ''locality'') \<and> is_token (get_or_empty loc ''state'')
      \<and> is_token (get_or_empty loc ''postcode'')
      \<and> py_upper (get_or_empty loc ''postcode'') = get_or_empty loc ''postcode''
    \<longrightarrow> parse_search_location (construct_search_query loc)
        = (py_upper (get_or_empty loc ''locality''), py_upper (get_or_empty loc ''state''),
           get_or_empty loc ''postcode''))
   \<and> (length (py_split q) < 3 \<longrightarrow> parse_search_location q = ([], [], []))"
proof (intro conjI impI)
  show "parse_search_location q = ([], [], [])" if "length (py_split q) < 3"
    using that by (simp add: parse_search_location_def length_py_split_upper)
next
  let ?l = "py_upper (get_or_empty loc ''locality'')"
  let ?s = "py_upper (get_or_empty loc ''state'')"
  let ?p = "get_or_empty loc ''postcode''"
  let ?q = "?l @ '' '' @ ?s @ '' '' @ ?p"
  assume a: "is_token (get_or_empty loc ''locality'') \<and> is_token (get_or_empty loc ''state'')
     \<and> is_token ?p \<and> py_upper ?p = ?p"
  then have tl: "is_token ?l" and ts: "is_token ?s" and tp: "is_token ?p" and up: "py_upper ?p = ?p"
    by (simp_all add: is_token_py_upper)
  have hd_ok: "\<not> is_space (hd ?q)"
    using tl by (cases ?l) (simp_all add: is_token_def)
  have last_ok: "\<not> is_space (last ?q)"
    using tp by (cases ?p rule: rev_cases) (simp_all add: is_token_def)
  have "?q \<noteq> []" by simp
  then have strip: "py_strip ?q = ?q"
    using hd_ok last_ok by (rule py_strip_id)
  have "py_upper ?q = ?q"
    using up by (simp add: py_upper_def char_upper_idem char_upper_blank)
  then have "py_split (py_upper (construct_search_query loc)) = [?l, ?s, ?p]"
    using split_ws_three [OF tl ts tp] strip
    by (simp add: construct_search_query_def Let_def py_split_def)
  then show "parse_search_location (construct_search_query loc) = (?l, ?s, ?p)"
    by (simp add: parse_search_location_def)
qed

theorem parse_inverts_construct_witness:
  "parse_search_location (construct_search_query (mk_location ''Sydney'' ''nsw'' ''2000''))
     = (''SYDNEY'', ''NSW'', ''2000'')
   \<and> parse_search_location ''SYDNEY 2000'' = ([], [], [])"
proof -
  let ?loc = "mk_location ''Sydney'' ''nsw'' ''2000''"
  have g: "get_or_empty ?loc ''locality'' = ''Sydney''" "get_or_empty ?loc ''state'' = ''nsw''"
    "get_or_empty ?loc ''postcode'' = ''2000''"
    by (simp_all add: get_or_empty_def mk_location_def)
  have pre: "is_token ''Sydney''" "is_token ''nsw''" "is_token ''2000''" "py_upper ''2000'' = ''2000''"
    "py_upper ''Sydney'' = ''SYDNEY''" "py_upper ''nsw'' = ''NSW''"
    "length (py_split ''SYDNEY 2000'') < 3"
    by code_simp+
  show ?thesis
    using parse_inverts_construct [of ?loc "''SYDNEY 2000''"] pre
    by (simp add: g)
qed

text \<open>
  C2 as the specification states it fails: a locality of two words moves the state and the
  postcode by one place, a location without a locality gives a query of two words, which
  parses to empty fields, and the parse upper-cases the postcode.
\<close>

theorem parse_inverts_construct_counterexample:
  "parse_search_location (construct_search_query (mk_location ''Rose Bay'' ''NSW'' ''2029''))
     = (''ROSE'', ''BAY'', ''NSW'')
   \<and> (py_upper ''Rose Bay'', py_upper ''NSW'', ''2029'') = (''ROSE BAY'', ''NSW'', ''2029'')
   \<and> parse_search_location (construct_search_query (mk_location '''' ''NSW'' ''2000''))
     = ('''', '''', '''')
   \<and> parse_search_location (construct_search_query (mk_location ''Sydney'' ''NSW'' ''2000a''))
     = (''SYDNEY'', ''NSW'', ''2000A'')"
  by code_simp


section \<open>Claim C1: the telephone gate\<close>

text \<open>
  C1. For a page that passes the validity gates, \<open>scrape_detail_page\<close> returns a record,
  and the loop of the run appends it to the batch, if and only if the normalised
  telephone is not in the telephone set or the telephone is empty. The telephone set only
  grows: adding a telephone, processing a link, saving and the whole run never remove an
  element.
\<close>

theorem telephone_gate:
  "(passes_validity_gates pg \<longrightarrow>
      (scrape_detail_page self (Returned pg) url stype sloc \<noteq> None)
      = (clean_telephone (extract_telephone (extract_all_text_from_page pg))
           \<notin> existing_telephones self
         \<or> extract_telephone (extract_all_text_from_page pg) = []))
   \<and> (passes_validity_gates pg \<longrightarrow>
        (\<exists>pd. results (process_link self (Returned pg) url stype sloc) = results self @ [asdict pd]
              \<and> telephone pd = extract_telephone (extract_all_text_from_page pg))
        = (clean_telephone (extract_telephone (extract_all_text_from_page pg))
             \<notin> existing_telephones self
           \<or> extract_telephone (extract_all_text_from_page pg) = []))
   \<and> existing_telephones self \<subseteq> existing_telephones (add_telephone_to_memory self tel)
   \<and> existing_telephones self \<subseteq> existing_telephones (process_link self page url stype sloc)
   \<and> existing_telephones (save_to_csv self) = existing_telephones self
   \<and> existing_telephones self \<subseteq> existing_telephones (fst (run self web locs))"
proof (intro conjI impI)
  assume gates: "passes_validity_gates pg"
  let ?tel = "extract_telephone (extract_all_text_from_page pg)"
  let ?ok = "clean_telephone ?tel \<notin> existing_telephones self \<or> ?tel = []"
  show iff: "(scrape_detail_page self (Returned pg) url stype sloc \<noteq> None) = ?ok"
    using scrape_accepts_iff [OF gates, of self url stype sloc] by blast
  show "(\<exists>pd. results (process_link self (Returned pg) url stype sloc) = results self @ [asdict pd]
              \<and> telephone pd = ?tel) = ?ok"
  proof (cases "scrape_detail_page self (Returned pg) url stype sloc")
    case None
    then have "process_link self (Returned pg) url stype sloc = self"
      by (rule process_link_rejected)
    with None iff show ?thesis by simp
  next
    case (Some pd)
    then have "telephone pd = ?tel"
      by (auto simp: scrape_detail_page_def Let_def split: if_splits prod.splits)
    moreover have "results (process_link self (Returned pg) url stype sloc)
                   = results self @ [asdict pd]"
      using Some by (simp add: process_link_def add_telephone_to_memory_def Let_def)
    ultimately show ?thesis
      using Some iff by auto
  qed
qed (simp_all add: add_telephone_mono process_link_mono save_to_csv_telephones run_mono)

theorem telephone_gate_witness:
  "passes_validity_gates sunshine_page
   \<and> extract_telephone (extract_all_text_from_page sunshine_page) = ''02 8388 8000''
   \<and> scrape_detail_page fresh_scraper (Returned sunshine_page) ''u'' ''t'' ''SYDNEY NSW 2000'' \<noteq> None
   \<and> scrape_detail_page seen_scraper (Returned sunshine_page) ''u'' ''t'' ''SYDNEY NSW 2000'' = None
   \<and> results (process_link seen_scraper (Returned sunshine_page) ''u'' ''t'' ''SYDNEY NSW 2000'') = []"
proof -
  have gates: "passes_validity_gates sunshine_page"
    by code_simp
  have tel: "extract_telephone (extract_all_text_from_page sunshine_page) = ''02 8388 8000''"
    by code_simp
  have fresh: "existing_telephones fresh_scraper = {}"
    and seen: "clean_telephone ''02 8388 8000'' \<in> existing_telephones seen_scraper"
    and batch: "results seen_scraper = []"
    by code_simp+
  show ?thesis
    using telephone_gate [of sunshine_page fresh_scraper "''u''" "''t''" "''SYDNEY NSW 2000''"]
      telephone_gate [of sunshine_page seen_scraper "''u''" "''t''" "''SYDNEY NSW 2000''"]
      gates tel fresh seen batch
    by (auto simp: process_link_def)
qed

section \<open>Claim C8: the rows written by a flush\<close>

text \<open>
  C8, as amended. A flush of a batch that is not empty leaves in the store the rows it
  held before, then the header row if the store did not exist, then one row per record of
  the batch, and empties the batch. A row has the eight cells company name, address,
  suburb, state, postcode, telephone, email and website of the record, in this order, and
  none of its other fields. A company name with a line break is written as the text before
  the first line break, stripped of the whitespace around it; any other name is written
  as it is.
\<close>

theorem save_to_csv_rows:
  "(results self \<noteq> [] \<longrightarrow>
      output_csv (save_to_csv self)
        = Some ((case output_csv self of None \<Rightarrow> [fieldnames] | Some old \<Rightarrow> old)
                @ map csv_row (results self))
      \<and> results (save_to_csv self) = [])
   \<and> fieldnames = [''company_name'', ''address'', ''suburb'', ''state'', ''postcode'',
                    ''telephone'', ''email'', ''website'']
   \<and> length (csv_row row) = 8
   \<and> csv_row (asdict pd)
       = [clean_company_name (company_name pd), address pd, suburb pd, state pd, postcode pd,
          telephone pd, email pd, website pd]
   \<and> (CHR ''\<newline>'' \<in> set name \<longrightarrow>
        clean_company_name name = py_strip (takeWhile (\<lambda>c. c \<noteq> CHR ''\<newline>'') name))
   \<and> (CHR ''\<newline>'' \<notin> set name \<longrightarrow> clean_company_name name = name)"
proof (intro conjI impI)
  assume "results self \<noteq> []"
  then show "output_csv (save_to_csv self)
        = Some ((case output_csv self of None \<Rightarrow> [fieldnames] | Some old \<Rightarrow> old)
                @ map csv_row (results self))"
    by (simp add: save_to_csv_def Let_def write_rows_append split: option.splits)
  show "results (save_to_csv self) = []"
    by (simp add: save_to_csv_def Let_def)
next
  show "csv_row (asdict pd)
       = [clean_company_name (company_name pd), address pd, suburb pd, state pd, postcode pd,
          telephone pd, email pd, website pd]"
    by (simp add: csv_row_def fieldnames_def asdict_def get_or_empty_def)
next
  assume "CHR ''\<newline>'' \<in> set name"
  then show "clean_company_name name = py_strip (takeWhile (\<lambda>c. c \<noteq> CHR ''\<newline>'') name)"
    by (auto simp: clean_company_name_def first_line_takeWhile)
qed (simp_all add: fieldnames_def csv_row_def clean_company_name_def)

theorem save_to_csv_rows_witness:
  "results (fresh_scraper\<lparr>results := [asdict (sunshine_record ''u'' ''t'')]\<rparr>) \<noteq> []
   \<and> output_csv (save_to_csv (fresh_scraper\<lparr>results := [asdict (sunshine_record ''u'' ''t'')]\<rparr>))
     = Some [[''company_name'', ''address'', ''suburb'', ''state'', ''postcode'', ''telephone'',
              ''email'', ''website''],
             [''SUNSHINE AGED CARE'', '''', ''SYDNEY'', ''NSW'', ''2000'', ''02 8388 8000'',
              ''info@example.com.au'', '''']]
   \<and> output_csv (save_to_csv (fresh_scraper\<lparr>results := [asdict (sunshine_record ''u'' ''t'')],
                                            output_csv := Some [fieldnames]\<rparr>))
     = Some [[''company_name'', ''address'', ''suburb'', ''state'', ''postcode'', ''telephone'',
              ''email'', ''website''],
             [''SUNSHINE AGED CARE'', '''', ''SYDNEY'', ''NSW'', ''2000'', ''02 8388 8000'',
              ''info@example.com.au'', '''']]
   \<and> clean_company_name ''ACME \<newline>Pty Ltd'' = ''ACME''"
proof -
  let ?row = "asdict (sunshine_record ''u'' ''t'')"
  have strip: "py_strip (takeWhile (\<lambda>c. c \<noteq> CHR ''\<newline>'') ''ACME \<newline>Pty Ltd'') = ''ACME''"
    by code_simp
  have cells: "clean_company_name (company_name (sunshine_record ''u'' ''t'')) = ''SUNSHINE AGED CARE''"
    by code_simp
  show ?thesis
    using save_to_csv_rows [of "fresh_scraper\<lparr>results := [?row]\<rparr>" ?row
            "sunshine_record ''u'' ''t''" "''ACME \<newline>Pty Ltd''"]
      save_to_csv_rows [of "fresh_scraper\<lparr>results := [?row], output_csv := Some [fieldnames]\<rparr>"
            ?row "sunshine_record ''u'' ''t''" "''ACME \<newline>Pty Ltd''"]
      strip cells
    by (simp add: fresh_scraper_def sunshine_record_def)
qed

text \<open>
  C8 as the specification states it fails in two places. A flush of an empty batch writes
  no header although the store does not exist, and a name with a line break is not written
  as the text before the line break (here \<open>ACME\<close> with a blank after it) but as that text
  stripped.
\<close>

theorem save_to_csv_rows_counterexample:
  "output_csv fresh_scraper = None
   \<and> output_csv (save_to_csv fresh_scraper) = None
   \<and> output_csv (save_to_csv (fresh_scraper\<lparr>results := [asdict acme_record]\<rparr>))
     = Some [fieldnames,
             [''ACME'', '''', ''SYDNEY'', ''NSW'', ''2000'', '''', '''', '''']]
   \<and> takeWhile (\<lambda>c. c \<noteq> CHR ''\<newline>'') (company_name acme_record) = ''ACME ''"
  by code_simp

section \<open>Claim C10: flushing an empty batch\<close>

text \<open>
  C10. With an empty batch \<open>save_to_csv\<close> changes nothing: the store is neither created nor
  changed and no header is written. A run that starts with an empty batch and accepts no
  record ends in the state it started in, so it does not create the store.
\<close>

theorem empty_batch_is_kept:
  "(results self = [] \<longrightarrow> save_to_csv self = self)
   \<and> (results self = [] \<and> snd (run self web locs) = 0 \<longrightarrow> fst (run self web locs) = self)"
  using run_locations_none [of self web locs]
  by (simp add: save_to_csv_empty run_def)

theorem empty_batch_is_kept_witness:
  "results fresh_scraper = []
   \<and> save_to_csv fresh_scraper = fresh_scraper
   \<and> snd (run fresh_scraper silent_site [mk_location ''Sydney'' ''nsw'' ''2000'']) = 0
   \<and> fst (run fresh_scraper silent_site [mk_location ''Sydney'' ''nsw'' ''2000'']) = fresh_scraper
   \<and> output_csv (fst (run fresh_scraper silent_site [mk_location ''Sydney'' ''nsw'' ''2000''])) = None"
proof -
  have batch: "results fresh_scraper = []" and store: "output_csv fresh_scraper = None"
    by (simp_all add: fresh_scraper_def)
  have none: "snd (run fresh_scraper silent_site [mk_location ''Sydney'' ''nsw'' ''2000'']) = 0"
    by code_simp
  show ?thesis
    using empty_batch_is_kept [of fresh_scraper silent_site "[mk_location ''Sydney'' ''nsw'' ''2000'']"]
      batch store none
    by simp
qed


section \<open>Claim C9: the company name read from the text\<close>

text \<open>
  C9, as amended. The fallback strips every line of the text of the whitespace around it
  and returns the first stripped line that has 4 to 99 characters, is all upper case or
  has a word beginning with a capital letter, and contains none of the keywords
  \<open>home\<close>, \<open>find a provider\<close>, \<open>search\<close>, \<open>print\<close>, \<open>share\<close> in any case. When no line
  qualifies it returns the empty string.
\<close>

theorem company_name_from_text:
  "(\<forall>i < length (split_on CHR ''\<newline>'' text).
       name_line (py_strip (split_on CHR ''\<newline>'' text ! i))
       \<and> (\<forall>j < i. \<not> name_line (py_strip (split_on CHR ''\<newline>'' text ! j)))
       \<longrightarrow> extract_company_name_from_text text = py_strip (split_on CHR ''\<newline>'' text ! i))
   \<and> ((\<forall>l \<in> set (split_on CHR ''\<newline>'' text). \<not> name_line (py_strip l))
       \<longrightarrow> extract_company_name_from_text text = [])
   \<and> name_line line
       = (4 \<le> length line \<and> length line \<le> 99
          \<and> (py_isupper line \<or> (\<exists>word \<in> set (py_split line). is_upper_char (hd word)))
          \<and> (\<forall>keyword \<in> set [''home'', ''find a provider'', ''search'', ''print'', ''share''].
                \<not> contains keyword (py_lower line)))"
proof (intro conjI allI impI)
  fix i
  assume i: "i < length (split_on CHR ''\<newline>'' text)"
    and q: "name_line (py_strip (split_on CHR ''\<newline>'' text ! i))
            \<and> (\<forall>j < i. \<not> name_line (py_strip (split_on CHR ''\<newline>'' text ! j)))"
  then show "extract_company_name_from_text text = py_strip (split_on CHR ''\<newline>'' text ! i)"
    unfolding extract_company_name_from_text_def by (intro first_name_line_at) auto
next
  assume "\<forall>l \<in> set (split_on CHR ''\<newline>'' text). \<not> name_line (py_strip l)"
  then show "extract_company_name_from_text text = []"
    unfolding extract_company_name_from_text_def by (rule first_name_line_none)
next
  show "name_line line
       = (4 \<le> length line \<and> length line \<le> 99
          \<and> (py_isupper line \<or> (\<exists>word \<in> set (py_split line). is_upper_char (hd word)))
          \<and> (\<forall>keyword \<in> set [''home'', ''find a provider'', ''search'', ''print'', ''share''].
                \<not> contains keyword (py_lower line)))"
    using word_starts_upper_split [of line]
    by (auto simp: name_line_def looks_like_name_def menu_keywords_def list_ex_iff)
qed

theorem company_name_from_text_witness:
  "extract_company_name_from_text ''Home\<newline>  we are Open today \<newline>SUNSHINE AGED CARE''
     = ''we are Open today''
   \<and> extract_company_name_from_text ''Home\<newline>abc\<newline>print this page'' = []"
proof -
  let ?t = "''Home\<newline>  we are Open today \<newline>SUNSHINE AGED CARE''"
  let ?u = "''Home\<newline>abc\<newline>print this page''"
  have lines: "split_on CHR ''\<newline>'' ?t = [''Home'', ''  we are Open today '', ''SUNSHINE AGED CARE'']"
    "split_on CHR ''\<newline>'' ?u = [''Home'', ''abc'', ''print this page'']"
    by code_simp+
  have facts: "\<not> name_line (py_strip ''Home'')" "name_line (py_strip ''  we are Open today '')"
    "py_strip ''  we are Open today '' = ''we are Open today''"
    "\<not> name_line (py_strip ''abc'')" "\<not> name_line (py_strip ''print this page'')"
    by code_simp+
  have "(1::nat) < 3" by simp
  with company_name_from_text [of ?t "''Home''"] facts
  have "extract_company_name_from_text ?t = ''we are Open today''"
    unfolding lines by (auto simp: less_Suc_eq dest!: spec [of _ 1])
  moreover have "extract_company_name_from_text ?u = []"
    using company_name_from_text [of ?u "''Home''"] facts unfolding lines by simp
  ultimately show ?thesis by simp
qed

text \<open>
  C9 as the specification states it fails. A line with one capitalised word is returned
  although it is neither all upper case nor title-cased, and a line is returned stripped,
  not as it stands in the text.
\<close>

theorem company_name_from_text_counterexample:
  "extract_company_name_from_text ''we are Open today'' = ''we are Open today''
   \<and> spec_company_name_from_text ''we are Open today'' = []
   \<and> extract_company_name_from_text ''  ACME CARE  '' = ''ACME CARE''
   \<and> spec_company_name_from_text ''  ACME CARE  '' = ''  ACME CARE  ''"
  by code_simp


section \<open>Claim C3: the links read from the cards\<close>




section \<open>Claim C4: the cap on the links\<close>

text \<open>
  C4. When the harvester has collected a list of \<open>k\<close> links and the cap \<open>c\<close> is positive,
  it returns the first \<open>min k c\<close> of them in the order of their discovery; the links
  returned are distinct and none contains \<open>results\<close>. When it has collected no link it
  returns the empty list, not an error.
\<close>

theorem link_cap:
  "(collect_links pg = Returned links \<and> 0 < c \<longrightarrow>
      extract_all_links_from_cards (Some c) pg
        = Returned (take (min (length links) (nat c)) links)
      \<and> length (take (min (length links) (nat c)) links) = min (length links) (nat c)
      \<and> distinct (take (min (length links) (nat c)) links)
      \<and> (\<forall>u \<in> set (take (min (length links) (nat c)) links). \<not> contains ''results'' u))
   \<and> (collect_links pg = Returned [] \<longrightarrow> extract_all_links_from_cards cap pg = Returned [])"
proof (intro conjI impI)
  assume a: "collect_links pg = Returned links \<and> 0 < c"
  then have ok: "links_ok (page_hrefs pg) links" by (simp add: collect_links_ok)
  have t: "take (min (length links) (nat c)) links = take (nat c) links"
    by (simp add: min_def)
  show "extract_all_links_from_cards (Some c) pg
        = Returned (take (min (length links) (nat c)) links)"
    using a filter_results_id [OF ok]
    by (simp add: extract_all_links_from_cards_def apply_cap_def t)
  show "length (take (min (length links) (nat c)) links) = min (length links) (nat c)"
    by simp
  show "distinct (take (min (length links) (nat c)) links)"
    using ok by (simp add: links_ok_def)
  show "\<forall>u \<in> set (take (min (length links) (nat c)) links). \<not> contains ''results'' u"
    using ok by (auto simp: links_ok_def detail_shape_def dest: in_set_takeD)
next
  assume "collect_links pg = Returned []"
  then show "extract_all_links_from_cards cap pg = Returned []"
    by (simp add: extract_all_links_from_cards_def apply_cap_def split: option.splits)
qed

theorem link_cap_witness:
  "collect_links three_card_page
     = Returned [''https://www.myagedcare.gov.au/find-a-provider/aged-care-homes/1'',
                 ''https://www.myagedcare.gov.au/find-a-provider/aged-care-homes/2'',
                 ''https://www.myagedcare.gov.au/find-a-provider/aged-care-homes/3'']
   \<and> extract_all_links_from_cards (Some 2) three_card_page
     = Returned [''https://www.myagedcare.gov.au/find-a-provider/aged-care-homes/1'',
                 ''https://www.myagedcare.gov.au/find-a-provider/aged-care-homes/2'']
   \<and> collect_links empty_listing = Returned []
   \<and> extract_all_links_from_cards LINK_PER_SEARCH empty_listing = Returned []"
proof -
  have three: "collect_links three_card_page
     = Returned [''https://www.myagedcare.gov.au/find-a-provider/aged-care-homes/1'',
                 ''https://www.myagedcare.gov.au/find-a-provider/aged-care-homes/2'',
                 ''https://www.myagedcare.gov.au/find-a-provider/aged-care-homes/3'']"
    and none: "collect_links empty_listing = Returned []"
    by code_simp+
  show ?thesis
    using three none
      link_cap [of three_card_page
        "[''https://www.myagedcare.gov.au/find-a-provider/aged-care-homes/1'',
          ''https://www.myagedcare.gov.au/find-a-provider/aged-care-homes/2'',
          ''https://www.myagedcare.gov.au/find-a-provider/aged-care-homes/3'']" 2 LINK_PER_SEARCH]
      link_cap [of empty_listing "[]" 2 LINK_PER_SEARCH]
    by simp
qed


section \<open>Claim C7: the wait for the results is bounded\<close>

text \<open>
  C7. The detector is a total function of the views it is shown: its loop runs over the
  thirty attempts of \<^verbatim>\<open>range(30)\<close> and nothing else repeats. On every timeline it pauses
  for 500 ms at most 30 times and checks for an empty result at most 32 times. On a
  timeline that never shows a result nor a sign of an empty result it pauses exactly 30
  times, makes one last check after the loop (the 32nd), prints that it could not
  determine whether results exist, and returns \<open>False\<close>. Whenever the detector
  returns \<open>False\<close> the run skips the search: the scraper is unchanged and no record is counted.
\<close>

theorem wait_for_results_terminates:
  "count_list (snd (wait_for_results tline)) (Sleep 500) \<le> 30
   \<and> count_list (snd (wait_for_results tline)) No_results_check \<le> 32
   \<and> ((\<forall>k. inconclusive (tline k)) \<longrightarrow>
        fst (wait_for_results tline) = False
        \<and> count_list (snd (wait_for_results tline)) (Sleep 500) = 30
        \<and> count_list (snd (wait_for_results tline)) No_results_check = 32
        \<and> (\<exists>evs. snd (wait_for_results tline)
               = evs @ [No_results_check, Printed ''Could not determine if results exist'']))
   \<and> (\<not> fst (wait_for_results (timeline fx)) \<longrightarrow> run_pair self fx stype squery = (self, 0))"
  using wait_for_results_bound [of tline] wait_for_results_inconclusive [of tline]
    run_pair_skips [of fx self stype squery]
  by blast

theorem wait_for_results_terminates_witness:
  "inconclusive blank_view
   \<and> fst (wait_for_results (\<lambda>k. blank_view)) = False
   \<and> count_list (snd (wait_for_results (\<lambda>k. blank_view))) (Sleep 500) = 30
   \<and> count_list (snd (wait_for_results (\<lambda>k. blank_view))) No_results_check = 32
   \<and> run_pair fresh_scraper (silent_site ''aged-care-homes'' ''SYDNEY NSW 2000'')
        ''aged-care-homes'' ''SYDNEY NSW 2000'' = (fresh_scraper, 0)"
proof -
  have blank: "inconclusive blank_view"
    by code_simp
  have tl: "timeline (silent_site ''aged-care-homes'' ''SYDNEY NSW 2000'') = (\<lambda>k. blank_view)"
    by (simp add: silent_site_def)
  show ?thesis
    using wait_for_results_terminates [of "\<lambda>k. blank_view"
        "silent_site ''aged-care-homes'' ''SYDNEY NSW 2000''" fresh_scraper
        "''aged-care-homes''" "''SYDNEY NSW 2000''"] blank
    by (simp add: tl)
qed


section \<open>Claim C5: the telephone\<close>

text \<open>
  C5. The candidates are the matches of the six patterns, taken pattern by pattern in the
  order of the list and, within a pattern, from left to right. The telephone is the first
  candidate that starts neither with \<open>2025\<close> nor with \<open>2024\<close> (a pattern whose
  matches all start so is passed over), and the empty string when there is none; the function is total, so it never fails. Every candidate begins and
  ends with a digit, so stripping it changes nothing and the telephone is the candidate
  itself.
\<close>

theorem telephone_is_first_candidate:
  "extract_telephone text
     = (case find (\<lambda>m. \<not> (startswith ''2025'' m \<or> startswith ''2024'' m))
               (concat (map (\<lambda>pattern. re_findall pattern text) telephone_patterns)) of
          None \<Rightarrow> []
        | Some m \<Rightarrow> m)
   \<and> length telephone_patterns = 6
   \<and> (\<forall>pattern \<in> set telephone_patterns. \<forall>m \<in> set (re_findall pattern text).
         m \<noteq> [] \<and> is_digit (hd m) \<and> is_digit (last m))
   \<and> \<not> startswith ''2025'' (extract_telephone text)
   \<and> \<not> startswith ''2024'' (extract_telephone text)"
proof -
  let ?cands = "concat (map (\<lambda>pattern. re_findall pattern text) telephone_patterns)"
  have eq: "extract_telephone text
     = (case find (\<lambda>m. \<not> (startswith ''2025'' m \<or> startswith ''2024'' m)) ?cands of
          None \<Rightarrow> [] | Some m \<Rightarrow> m)"
    using extract_telephone_find [of "text"] unfolding looks_like_date_def .
  have "\<not> (startswith ''2025'' (extract_telephone text) \<or> startswith ''2024'' (extract_telephone text))"
  proof (cases "find (\<lambda>m. \<not> (startswith ''2025'' m \<or> startswith ''2024'' m)) ?cands")
    case None
    with eq show ?thesis by simp
  next
    case (Some m)
    then have "\<not> (startswith ''2025'' m \<or> startswith ''2024'' m)"
      by (auto simp: find_Some_iff)
    with eq Some show ?thesis by simp
  qed
  moreover have "length telephone_patterns = 6"
    by (simp add: telephone_patterns_def)
  moreover have "\<forall>pattern \<in> set telephone_patterns. \<forall>m \<in> set (re_findall pattern text).
         m \<noteq> [] \<and> is_digit (hd m) \<and> is_digit (last m)"
    using telephone_candidate by blast
  ultimately show ?thesis using eq by blast
qed

theorem telephone_is_first_candidate_witness:
  "concat (map (\<lambda>pattern. re_findall pattern ''On 2025 123 456 call 0283888000 or 1800 864 846'')
             telephone_patterns)
     = [''2025 123 456'', ''1800 864 846'', ''0283888000'']
   \<and> extract_telephone ''On 2025 123 456 call 0283888000 or 1800 864 846'' = ''1800 864 846''
   \<and> extract_telephone ''Updated 20250101'' = []
   \<and> extract_telephone ''Updated 20240115. Call 0283888000'' = ''0283888000''"
proof -
  have c1: "concat (map (\<lambda>pattern. re_findall pattern
                ''On 2025 123 456 call 0283888000 or 1800 864 846'') telephone_patterns)
     = [''2025 123 456'', ''1800 864 846'', ''0283888000'']"
    by code_simp
  have c2: "concat (map (\<lambda>pattern. re_findall pattern ''Updated 20250101'') telephone_patterns)
     = [''20250101'']"
    by code_simp
  have c3: "concat (map (\<lambda>pattern. re_findall pattern ''Updated 20240115. Call 0283888000'')
                telephone_patterns)
     = [''20240115'', ''0283888000'']"
    by code_simp
  show ?thesis
    using telephone_is_first_candidate [of "''On 2025 123 456 call 0283888000 or 1800 864 846''"]
      telephone_is_first_candidate [of "''Updated 20250101''"]
      telephone_is_first_candidate [of "''Updated 20240115. Call 0283888000''"]
    unfolding c1 c2 c3 by simp
qed


section \<open>Claim C6: the validity gate of the detail page\<close>





end
